theory Spec2Isabelle
  imports Complex_Main "HOL-Library.Word"
begin

section \<open>Values, arrays and errors\<close>

text \<open>
  The program works on numpy arrays. An array is modelled as a rectangular nested list,
  outermost axis first: an image of shape (H, W, C) is a list of H rows, each a list of
  W pixels, each a list of C channel values. Its shape is read off the nested list, so an
  array with a zero-length axis ahead of the last one is the empty list and carries no
  inner lengths. Channel values of images and masks are unsigned bytes (dtype uint8);
  the colours of the class table are Python integers.
\<close>

type_synonym 'a array2 = "'a list list"

type_synonym 'a array3 = "'a list list list"

type_synonym 'a array4 = "'a list list list list"

type_synonym uint8 = "8 word"

datatype error =
    ValueError
  | IndexError
  | ZeroDivisionError
  | StopIteration
  | IOError string
  | BaseException string

definition shape3 :: "'a array3 \<Rightarrow> nat \<times> nat \<times> nat" where
  "shape3 a =
     (length a,
      (case a of [] \<Rightarrow> 0 | r # _ \<Rightarrow> length r),
      (case a of (p # _) # _ \<Rightarrow> length p | _ \<Rightarrow> 0))"

text \<open>\<open>is_array3 (h, w, c) a\<close>: the nested list \<open>a\<close> is an array of shape (h, w, c).\<close>

definition is_array3 :: "nat \<times> nat \<times> nat \<Rightarrow> 'a array3 \<Rightarrow> bool" where
  "is_array3 s a =
     (case s of (h, w, c) \<Rightarrow>
        length a = h \<and> list_all (\<lambda>row. length row = w \<and> list_all (\<lambda>p. length p = c) row) a)"

text \<open>The first error of a traversal wins, as the first exception of a loop does.\<close>

fun emap :: "('a \<Rightarrow> 'e + 'b) \<Rightarrow> 'a list \<Rightarrow> 'e + 'b list" where
  "emap f [] = Inr []"
| "emap f (x # xs) =
     (case f x of
        Inl e \<Rightarrow> Inl e
      | Inr y \<Rightarrow> (case emap f xs of Inl e \<Rightarrow> Inl e | Inr ys \<Rightarrow> Inr (y # ys)))"

subsection \<open>numpy broadcasting along one axis\<close>

text \<open>
  Two axis lengths are compatible when they are equal or one of them is 1; the result has
  the other length. An axis of length 1 is stretched by repeating its only element.
\<close>

definition broadcast_len :: "nat \<Rightarrow> nat \<Rightarrow> error + nat" where
  "broadcast_len a b =
     (if a = b then Inr a else if a = 1 then Inr b else if b = 1 then Inr a
      else Inl ValueError)"

definition stretch :: "nat \<Rightarrow> 'a list \<Rightarrow> 'a list" where
  "stretch n xs = (if length xs = n then xs else replicate n (hd xs))"

text \<open>Assignment into a slot of length \<open>n\<close> broadcasts the value only, never the slot.\<close>

definition broadcast_to :: "nat \<Rightarrow> 'a list \<Rightarrow> error + 'a list" where
  "broadcast_to n xs =
     (if length xs = n \<or> length xs = 1 then Inr (stretch n xs) else Inl ValueError)"

section \<open>The model object\<close>

text \<open>
  The fields of \<open>Unet2DModel\<close> that the data pipeline reads or writes. An attribute that
  has not been assigned yet is \<open>None\<close>. \<open>IS_TEST_DATA_LABELED\<close> is used as a condition
  only, so it is kept as its truth value (the default \<open>None\<close> is false).
\<close>

record unet2d_model =
  CLASSES :: "(int list \<times> string) list"
  IMG_SIZE :: nat
  IMG_CHANNELS :: nat
  IS_TEST_DATA_LABELED :: bool
  PREPROCESSED_TRAIN_PATH :: string
  PREPROCESSED_TEST_PATH :: string
  epochs_measured :: int
  train_images :: "uint8 array4 option"
  train_masks :: "bool array4 option"
  test_images :: "uint8 array4 option"
  test_masks :: "bool array4 option"

definition NUM_CLASSES :: "'a unet2d_model_scheme \<Rightarrow> nat" where
  "NUM_CLASSES self = length (CLASSES self)"

section \<open>Class codec\<close>

subsection \<open>mask_to_classes\<close>

text \<open>
  \<open>np.all(np.equal(mask, color * self.ones), axis=-1)\<close> for one class. \<open>self.ones\<close> has
  shape (S, S, C), so the product with the colour has the channel length \<open>t\<close> that the
  length of the colour and C broadcast to, and the comparison with a pixel of the mask
  the channel length \<open>r\<close>. The plane is then stored in \<open>classes[i]\<close>, a slot of shape
  (S, S): each spatial axis of the mask has length S or 1. Every shape mismatch is a
  ValueError.
\<close>

definition pixel_equals :: "nat \<Rightarrow> int list \<Rightarrow> uint8 list \<Rightarrow> error + bool" where
  "pixel_equals t color px =
     (case broadcast_len (length px) t of
        Inl e \<Rightarrow> Inl e
      | Inr r \<Rightarrow> Inr (list_all2 (\<lambda>p k. uint p = k) (stretch r px) (stretch r (stretch t color))))"

definition class_plane :: "nat \<Rightarrow> nat \<Rightarrow> uint8 array3 \<Rightarrow> int list \<Rightarrow> error + bool array2" where
  "class_plane S C msk color =
     (case broadcast_len (length color) C of
        Inl e \<Rightarrow> Inl e
      | Inr t \<Rightarrow>
          (case emap (\<lambda>row. case emap (pixel_equals t color) row of
                               Inl e \<Rightarrow> Inl e
                             | Inr bs \<Rightarrow> broadcast_to S bs) msk of
             Inl e \<Rightarrow> Inl e
           | Inr rows \<Rightarrow> broadcast_to S rows))"

text \<open>\<open>np.swapaxes\<close> on an array whose shape (a, b, c) is known.\<close>

definition swapaxes02 :: "nat \<times> nat \<times> nat \<Rightarrow> 'a array3 \<Rightarrow> 'a array3" where
  "swapaxes02 s arr =
     (case s of (a, b, c) \<Rightarrow>
        map (\<lambda>k. map (\<lambda>j. map (\<lambda>i. arr ! i ! j ! k) [0..<a]) [0..<b]) [0..<c])"

definition swapaxes01 :: "nat \<times> nat \<times> nat \<Rightarrow> 'a array3 \<Rightarrow> 'a array3" where
  "swapaxes01 s arr =
     (case s of (a, b, c) \<Rightarrow> map (\<lambda>j. map (\<lambda>i. arr ! i ! j) [0..<a]) [0..<b])"

definition mask_to_classes :: "'a unet2d_model_scheme \<Rightarrow> uint8 array3 \<Rightarrow> error + bool array3" where
  "mask_to_classes self msk =
     (case emap (\<lambda>(color, _). class_plane (IMG_SIZE self) (IMG_CHANNELS self) msk color)
             (CLASSES self) of
        Inl e \<Rightarrow> Inl e
      | Inr classes \<Rightarrow>
          Inr (swapaxes01 (IMG_SIZE self, IMG_SIZE self, NUM_CLASSES self)
                (swapaxes02 (NUM_CLASSES self, IMG_SIZE self, IMG_SIZE self) classes)))"

subsection \<open>_prediction_to_mask\<close>

text \<open>
  The method \<open>_prediction_to_mask\<close> is \<open>prediction_to_mask\<close> here, since a name cannot
  begin with an underscore.

  \<open>np.argmax\<close> along the class axis: the first index that holds the maximum; an empty
  axis is a ValueError. The probabilities are values of any linear order (NaN, which
  \<open>np.argmax\<close> takes for a maximum, is not among them); the booleans of a label plane
  are ordered False < True.
\<close>

fun argmax_from :: "'a::linorder \<Rightarrow> nat \<Rightarrow> nat \<Rightarrow> 'a list \<Rightarrow> nat" where
  "argmax_from best bi i [] = bi"
| "argmax_from best bi i (y # ys) =
     (if best < y then argmax_from y i (Suc i) ys else argmax_from best bi (Suc i) ys)"

definition np_argmax :: "'a::linorder list \<Rightarrow> error + nat" where
  "np_argmax xs = (case xs of [] \<Rightarrow> Inl ValueError | x # rest \<Rightarrow> Inr (argmax_from x 0 1 rest))"

text \<open>
  \<open>mask[idxs == cn] = k\<close>: the colour is broadcast to the C channels of the selected
  pixels and cast to uint8, which wraps modulo 256.
\<close>

definition assign_where ::
  "nat \<Rightarrow> nat array2 \<Rightarrow> nat \<Rightarrow> int list \<Rightarrow> uint8 array3 \<Rightarrow> error + uint8 array3" where
  "assign_where C idxs cn k msk =
     (case broadcast_to C k of
        Inl e \<Rightarrow> Inl e
      | Inr kv \<Rightarrow>
          Inr (map2 (\<lambda>irow mrow. map2 (\<lambda>i px. if i = cn then map word_of_int kv else px) irow mrow)
                 idxs msk))"

fun paint_classes ::
  "nat \<Rightarrow> nat array2 \<Rightarrow> nat \<Rightarrow> (int list \<times> string) list \<Rightarrow> uint8 array3 \<Rightarrow> error + uint8 array3" where
  "paint_classes C idxs cn [] msk = Inr msk"
| "paint_classes C idxs cn ((k, _) # rest) msk =
     (case assign_where C idxs cn k msk of
        Inl e \<Rightarrow> Inl e
      | Inr msk' \<Rightarrow> paint_classes C idxs (Suc cn) rest msk')"

definition prediction_to_mask ::
  "'b unet2d_model_scheme \<Rightarrow> ('a::linorder) array3 \<Rightarrow> error + uint8 array3" where
  "prediction_to_mask self prediction =
     (case emap (emap np_argmax) prediction of
        Inl e \<Rightarrow> Inl e
      | Inr idxs \<Rightarrow>
          paint_classes (IMG_CHANNELS self) idxs 0 (CLASSES self)
            (map (map (\<lambda>_. replicate (IMG_CHANNELS self) 0)) prediction))"

section \<open>Dataset loader\<close>

text \<open>
  What the loaders see of the disk: \<open>listdir\<close> is \<open>next(os.walk(path))[2]\<close>, the file
  names of a directory (\<open>None\<close> where the walk yields nothing, which makes \<open>next\<close>
  raise StopIteration), and \<open>imread\<close> decodes a file into a 2-D array (one value per
  pixel) or a 3-D array (a channel vector per pixel); \<open>None\<close> is a file that cannot be
  read.
\<close>

datatype raster = Array2 "uint8 array2" | Array3 "uint8 array3"

record filesystem =
  listdir :: "string \<Rightarrow> string list option"
  imread :: "string \<Rightarrow> raster option"

text \<open>
  A call either returns or raises; in both cases the object is left in some state, since
  the loaders assign to the arrays of \<open>self\<close> sample by sample.
\<close>

datatype 'a outcome = Returned 'a | Raised error 'a

fun state_of :: "'a outcome \<Rightarrow> 'a" where
  "state_of (Returned s) = s"
| "state_of (Raised e s) = s"

text \<open>\<open>imread(...)[:, :, :C]\<close>: three indices on a 2-D array are an IndexError.\<close>

fun slice_channels :: "nat \<Rightarrow> raster \<Rightarrow> error + uint8 array3" where
  "slice_channels C (Array2 a) = Inl IndexError"
| "slice_channels C (Array3 a) = Inr (map (map (take C)) a)"

text \<open>
  \<open>self.train_images[n] = img\<close>: the image is broadcast to the slot of shape (S, S, C);
  its channel axis has length C by then.
\<close>

definition store_image :: "nat \<Rightarrow> 'a array3 \<Rightarrow> error + 'a array3" where
  "store_image S img =
     (case emap (broadcast_to S) img of Inl e \<Rightarrow> Inl e | Inr rows \<Rightarrow> broadcast_to S rows)"

text \<open>
  The two loaders have the same loop body, up to the root path, the word in the message
  of the image check and the condition under which the mask is read. \<open>read_image\<close> is
  the part of the body up to the assignment of the image: the test
  \<open>len(img.shape) == 2\<close> comes after the slice, which has raised for a 2-D array, so it
  is false whenever it is reached. \<open>read_mask\<close> is the part from the read of the mask
  on.
\<close>

definition read_image ::
  "'a unet2d_model_scheme \<Rightarrow> 'b filesystem_scheme \<Rightarrow> string \<Rightarrow> string \<Rightarrow> string \<Rightarrow> error + uint8 array3"
  where
  "read_image self fs path word ident =
     (case imread fs (path @ ''images/'' @ ident) of
        None \<Rightarrow> Inl (IOError (path @ ''images/'' @ ident))
      | Some r \<Rightarrow>
          (case slice_channels (IMG_CHANNELS self) r of
             Inl e \<Rightarrow> Inl e
           | Inr img \<Rightarrow>
               if snd (snd (shape3 img)) \<noteq> IMG_CHANNELS self
               then Inl (BaseException (''Invalid channel number in '' @ word @ '' image '' @ ident))
               else store_image (IMG_SIZE self) img))"

definition read_mask ::
  "'a unet2d_model_scheme \<Rightarrow> 'b filesystem_scheme \<Rightarrow> string \<Rightarrow> string \<Rightarrow> error + bool array3"
  where
  "read_mask self fs path ident =
     (case imread fs (path @ ''masks/'' @ ident) of
        None \<Rightarrow> Inl (IOError (path @ ''masks/'' @ ident))
      | Some (Array2 m) \<Rightarrow> Inl (BaseException (''Invalid channel number in mask image '' @ ident))
      | Some (Array3 m) \<Rightarrow>
          if snd (snd (shape3 m)) \<noteq> IMG_CHANNELS self
          then Inl (BaseException (''Invalid channel number in mask image '' @ ident))
          else mask_to_classes self m)"

fun load_loop ::
  "'a unet2d_model_scheme \<Rightarrow> 'b filesystem_scheme \<Rightarrow> string \<Rightarrow> string \<Rightarrow> bool \<Rightarrow>
   (nat \<times> string) list \<Rightarrow> uint8 array4 \<times> bool array4 \<Rightarrow> (uint8 array4 \<times> bool array4) outcome"
  where
  "load_loop self fs path word labeled [] arrays = Returned arrays"
| "load_loop self fs path word labeled ((n, ident) # rest) (images, masks) =
     (case read_image self fs path word ident of
        Inl e \<Rightarrow> Raised e (images, masks)
      | Inr img \<Rightarrow>
          if labeled then
            (case read_mask self fs path ident of
               Inl e \<Rightarrow> Raised e (images[n := img], masks)
             | Inr planes \<Rightarrow>
                 load_loop self fs path word labeled rest (images[n := img], masks[n := planes]))
          else load_loop self fs path word labeled rest (images[n := img], masks))"

definition zeros3 :: "nat \<Rightarrow> nat \<Rightarrow> nat \<Rightarrow> 'a \<Rightarrow> 'a array3" where
  "zeros3 h w c z = replicate h (replicate w (replicate c z))"

text \<open>
  The listing, the two zero-filled arrays and the loop. The arrays are attributes of
  \<open>self\<close> from the start, so what the loop has stored is there when it raises.
\<close>

definition load_arrays ::
  "'a unet2d_model_scheme \<Rightarrow> 'b filesystem_scheme \<Rightarrow> string \<Rightarrow> string \<Rightarrow> bool \<Rightarrow>
   error + (uint8 array4 \<times> bool array4) outcome" where
  "load_arrays self fs path word labeled =
     (case listdir fs (path @ ''images/'') of
        None \<Rightarrow> Inl StopIteration
      | Some ids \<Rightarrow>
          Inr (load_loop self fs path word labeled (enumerate 0 ids)
                 (replicate (length ids) (zeros3 (IMG_SIZE self) (IMG_SIZE self) (IMG_CHANNELS self) 0),
                  replicate (length ids) (zeros3 (IMG_SIZE self) (IMG_SIZE self) (NUM_CLASSES self) False))))"

definition load_training_images ::
  "'a unet2d_model_scheme \<Rightarrow> 'b filesystem_scheme \<Rightarrow> 'a unet2d_model_scheme outcome" where
  "load_training_images self fs =
     (case load_arrays self fs (PREPROCESSED_TRAIN_PATH self) ''training'' True of
        Inl e \<Rightarrow> Raised e self
      | Inr (Returned (images, masks)) \<Rightarrow>
          Returned (self\<lparr>train_images := Some images, train_masks := Some masks\<rparr>)
      | Inr (Raised e (images, masks)) \<Rightarrow>
          Raised e (self\<lparr>train_images := Some images, train_masks := Some masks\<rparr>))"

definition load_testing_images ::
  "'a unet2d_model_scheme \<Rightarrow> 'b filesystem_scheme \<Rightarrow> 'a unet2d_model_scheme outcome" where
  "load_testing_images self fs =
     (case load_arrays self fs (PREPROCESSED_TEST_PATH self) ''test'' (IS_TEST_DATA_LABELED self) of
        Inl e \<Rightarrow> Raised e self
      | Inr (Returned (images, masks)) \<Rightarrow>
          Returned (self\<lparr>test_images := Some images, test_masks := Some masks\<rparr>)
      | Inr (Raised e (images, masks)) \<Rightarrow>
          Raised e (self\<lparr>test_images := Some images, test_masks := Some masks\<rparr>))"

section \<open>Training\<close>

text \<open>
  Modelled from the spec: the training loop of \<open>self.model.fit\<close> with the early stopper of
  \<open>fit_model\<close> (\<open>EarlyStopping(patience=5)\<close> on the validation loss). It is the deep-learning
  library's, not this repository's. It runs at most \<open>epochs\<close> epochs and stops after the
  epoch that is the fifth in a row without an improvement of the validation loss on the
  best one so far. \<open>val_loss e\<close> is the validation loss measured in epoch \<open>e\<close>, \<open>best\<close> the
  best loss so far (none before the first epoch) and \<open>wait\<close> the number of epochs since.
  The result is the number of epochs that were trained.
\<close>

fun epochs_trained :: "nat \<Rightarrow> nat \<Rightarrow> real option \<Rightarrow> nat \<Rightarrow> (nat \<Rightarrow> real) \<Rightarrow> nat" where
  "epochs_trained 0 epoch best wait val_loss = epoch"
| "epochs_trained (Suc left) epoch best wait val_loss =
     (if (case best of None \<Rightarrow> True | Some b \<Rightarrow> val_loss epoch < b)
      then epochs_trained left (Suc epoch) (Some (val_loss epoch)) 0 val_loss
      else if 5 \<le> Suc wait then Suc epoch
      else epochs_trained left (Suc epoch) best (Suc wait) val_loss)"

definition keras_fit :: "int \<Rightarrow> (nat \<Rightarrow> real) \<Rightarrow> error + nat" where
  "keras_fit epochs val_loss = Inr (epochs_trained (nat epochs) 0 None 0 val_loss)"

text \<open>
  \<open>fit_model\<close>. What the call of \<open>self.model.fit\<close> did is the argument \<open>fit\<close>: it raised,
  or it returned after it had trained some number of epochs. \<open>fit_model\<close> does not look
  at that number: it adds its own argument \<open>epochs\<close> to the counter.
\<close>

definition fit_model ::
  "'a unet2d_model_scheme \<Rightarrow> int \<Rightarrow> error + nat \<Rightarrow> 'a unet2d_model_scheme outcome" where
  "fit_model self epochs fit =
     (case fit of
        Inl e \<Rightarrow> Raised e self
      | Inr trained \<Rightarrow> Returned (self\<lparr>epochs_measured := epochs_measured self + epochs\<rparr>))"

text \<open>Repeated calls, each with its argument and with what its training loop did.\<close>

fun fit_model_calls ::
  "'a unet2d_model_scheme \<Rightarrow> (int \<times> (error + nat)) list \<Rightarrow> 'a unet2d_model_scheme outcome" where
  "fit_model_calls self [] = Returned self"
| "fit_model_calls self ((epochs, fit) # rest) =
     (case fit_model self epochs fit of
        Returned self' \<Rightarrow> fit_model_calls self' rest
      | Raised e self' \<Rightarrow> Raised e self')"

section \<open>Floating-point results\<close>

text \<open>
  The metrics and the intensity scaling compute in floating point, where a division by
  zero raises nothing: it gives an infinity, or NaN for 0/0, and these propagate. A
  floating-point value is modelled as a real number or one of the three special values.
  Rounding, overflow and the sign of zero are not modelled: the finite results are exact,
  and a zero divisor counts as +0. Array entries are finite, so they are reals.
\<close>

datatype float_val = Finite real | PosInf | NegInf | NaN

definition signed_inf :: "bool \<Rightarrow> float_val" where
  "signed_inf negative = (if negative then NegInf else PosInf)"

fun fplus :: "float_val \<Rightarrow> float_val \<Rightarrow> float_val" where
  "fplus (Finite a) (Finite b) = Finite (a + b)"
| "fplus NaN _ = NaN"
| "fplus _ NaN = NaN"
| "fplus PosInf NegInf = NaN"
| "fplus NegInf PosInf = NaN"
| "fplus PosInf _ = PosInf"
| "fplus _ PosInf = PosInf"
| "fplus NegInf _ = NegInf"
| "fplus _ NegInf = NegInf"

fun ftimes :: "float_val \<Rightarrow> float_val \<Rightarrow> float_val" where
  "ftimes (Finite a) (Finite b) = Finite (a * b)"
| "ftimes NaN _ = NaN"
| "ftimes _ NaN = NaN"
| "ftimes (Finite a) PosInf = (if a = 0 then NaN else signed_inf (a < 0))"
| "ftimes (Finite a) NegInf = (if a = 0 then NaN else signed_inf (0 < a))"
| "ftimes PosInf (Finite b) = (if b = 0 then NaN else signed_inf (b < 0))"
| "ftimes NegInf (Finite b) = (if b = 0 then NaN else signed_inf (0 < b))"
| "ftimes PosInf PosInf = PosInf"
| "ftimes NegInf NegInf = PosInf"
| "ftimes PosInf NegInf = NegInf"
| "ftimes NegInf PosInf = NegInf"

fun fdivide :: "float_val \<Rightarrow> float_val \<Rightarrow> float_val" where
  "fdivide (Finite a) (Finite b) =
     (if b \<noteq> 0 then Finite (a / b) else if a = 0 then NaN else signed_inf (a < 0))"
| "fdivide NaN _ = NaN"
| "fdivide _ NaN = NaN"
| "fdivide (Finite a) _ = Finite 0"
| "fdivide PosInf (Finite b) = signed_inf (b < 0)"
| "fdivide NegInf (Finite b) = signed_inf (0 \<le> b)"
| "fdivide _ _ = NaN"

section \<open>Metrics\<close>

text \<open>
  A batch of label planes or of predictions has shape (m, x, y, n). \<open>K.sum\<close> over the
  axes 1, 2, 3 gives one sum per sample, \<open>K.mean\<close> over axis 0 the mean over the batch,
  which is 0/0 for an empty batch. The product \<open>y_true * y_pred\<close> is taken entry by
  entry, on two batches of the same shape.
\<close>

definition sum_axes123 :: "real array4 \<Rightarrow> real list" where
  "sum_axes123 t = map (\<lambda>sample. sum_list (map (\<lambda>row. sum_list (map sum_list row)) sample)) t"

definition times4 :: "real array4 \<Rightarrow> real array4 \<Rightarrow> real array4" where
  "times4 a b = map2 (map2 (map2 (map2 (*)))) a b"

definition mean_axis0 :: "float_val list \<Rightarrow> float_val" where
  "mean_axis0 xs = fdivide (foldr fplus xs (Finite 0)) (Finite (real (length xs)))"

definition iou_coef :: "real array4 \<Rightarrow> real array4 \<Rightarrow> real \<Rightarrow> float_val" where
  "iou_coef y_true y_pred smooth =
     (let intersection = sum_axes123 (times4 y_true y_pred);
          union = map2 (-) (map2 (+) (sum_axes123 y_true) (sum_axes123 y_pred)) intersection
      in mean_axis0 (map2 (\<lambda>i u. fdivide (Finite (i + smooth)) (Finite (u + smooth)))
                       intersection union))"

definition dice_coef :: "real array4 \<Rightarrow> real array4 \<Rightarrow> real \<Rightarrow> float_val" where
  "dice_coef y_true y_pred smooth =
     (let intersection = sum_axes123 (times4 y_true y_pred);
          union = map2 (+) (sum_axes123 y_true) (sum_axes123 y_pred)
      in mean_axis0 (map2 (\<lambda>i u. fdivide (Finite (2 * i + smooth)) (Finite (u + smooth)))
                       intersection union))"

section \<open>Intensity scaling of predict_volume\<close>

text \<open>
  \<open>img = img * (255 / img.max())\<close> on a volume of shape (D, H, W) or (D, H, W, C).
  \<open>img.max()\<close> of an array without elements is a ValueError; the division and the
  product are floating-point operations.
\<close>

datatype 'a volume = Volume3 "'a array3" | Volume4 "'a array4"

fun voxels :: "'a volume \<Rightarrow> 'a list" where
  "voxels (Volume3 a) = concat (concat a)"
| "voxels (Volume4 a) = concat (concat (concat a))"

definition scale_intensity :: "real volume \<Rightarrow> error + float_val volume" where
  "scale_intensity img =
     (case voxels img of
        [] \<Rightarrow> Inl ValueError
      | v # vs \<Rightarrow>
          Inr (map_volume
                 (\<lambda>x. ftimes (Finite x) (fdivide (Finite 255) (Finite (foldl max v vs)))) img))"

section \<open>Shapes in predict_volume\<close>

text \<open>
  The resampling of \<open>predict_volume\<close> at the level of array shapes. A shape is the list
  of the axis lengths. The steps that the image library and the network carry out are
  stand-ins that give the shape of the result only.
\<close>

type_synonym shape = "nat list"










section \<open>Notions used in the statements\<close>

text \<open>
  \<open>argmax_idx\<close> is the index that \<open>np_argmax\<close> returns on a vector with at least one
  entry, and \<open>uint8_colour\<close> the pixel that the decoder writes for a colour.
\<close>

definition argmax_idx :: "'a::linorder list \<Rightarrow> nat" where
  "argmax_idx xs = argmax_from (hd xs) 0 1 (tl xs)"

definition uint8_colour :: "nat \<Rightarrow> int list \<Rightarrow> uint8 list" where
  "uint8_colour C k = map word_of_int (stretch C k)"

text \<open>
  The two splits, to state a property of both loaders at once: the loader of a split, the
  directory it reads, the word it puts in the message of the image check, whether it
  reads the masks, and the attributes it assigns.
\<close>

datatype split = Train | Test

fun load_split ::
  "split \<Rightarrow> 'a unet2d_model_scheme \<Rightarrow> 'b filesystem_scheme \<Rightarrow> 'a unet2d_model_scheme outcome" where
  "load_split Train self fs = load_training_images self fs"
| "load_split Test self fs = load_testing_images self fs"

fun split_path :: "split \<Rightarrow> 'a unet2d_model_scheme \<Rightarrow> string" where
  "split_path Train self = PREPROCESSED_TRAIN_PATH self"
| "split_path Test self = PREPROCESSED_TEST_PATH self"

fun split_word :: "split \<Rightarrow> string" where
  "split_word Train = ''training''"
| "split_word Test = ''test''"

fun reads_masks :: "split \<Rightarrow> 'a unet2d_model_scheme \<Rightarrow> bool" where
  "reads_masks Train self = True"
| "reads_masks Test self = IS_TEST_DATA_LABELED self"

fun with_arrays ::
  "split \<Rightarrow> 'a unet2d_model_scheme \<Rightarrow> uint8 array4 \<Rightarrow> bool array4 \<Rightarrow> 'a unet2d_model_scheme" where
  "with_arrays Train self images masks = self\<lparr>train_images := Some images, train_masks := Some masks\<rparr>"
| "with_arrays Test self images masks = self\<lparr>test_images := Some images, test_masks := Some masks\<rparr>"

text \<open>
  The two ways in which a file can have the wrong number of channels for the checks of
  the loaders: an image that is a 3-D array, with at least one pixel, of fewer than C
  channels; a mask that is a 2-D array, or a 3-D array, with at least one pixel, whose
  channel count is not C.
\<close>

definition image_too_narrow :: "nat \<Rightarrow> raster option \<Rightarrow> bool" where
  "image_too_narrow C r =
     (case r of
        Some (Array3 a) \<Rightarrow>
          (case shape3 a of (h, w, c) \<Rightarrow> 0 < h \<and> 0 < w \<and> c < C \<and> is_array3 (h, w, c) a)
      | _ \<Rightarrow> False)"

definition mask_channels_differ :: "nat \<Rightarrow> raster option \<Rightarrow> bool" where
  "mask_channels_differ C r =
     (case r of
        Some (Array2 m) \<Rightarrow> True
      | Some (Array3 m) \<Rightarrow>
          (case shape3 m of (h, w, c) \<Rightarrow> 0 < h \<and> 0 < w \<and> c \<noteq> C \<and> is_array3 (h, w, c) m)
      | None \<Rightarrow> False)"

text \<open>All entries of a batch, in one list.\<close>

definition entries4 :: "'a array4 \<Rightarrow> 'a list" where
  "entries4 t = concat (concat (concat t))"

section \<open>Sample inputs\<close>

text \<open>
  A model object of three classes on images of 2 by 2 pixels and 3 channels, masks,
  images of 4 and of 2 channels, directories, a validation loss that stops improving
  after the first epoch, and batches of label planes.
\<close>

definition demo :: unet2d_model where
 "demo = \<lparr>CLASSES = [([0,0,0], ''background''), ([255,0,0], ''first''), ([0,255,0], ''second'')],
   IMG_SIZE = 2, IMG_CHANNELS = 3,
   IS_TEST_DATA_LABELED = False, PREPROCESSED_TRAIN_PATH = ''train/'', PREPROCESSED_TEST_PATH = ''test/'',
   epochs_measured = 0, train_images = None, train_masks = None, test_images = None, test_masks = None\<rparr>"

definition demo_labeled :: unet2d_model where
  "demo_labeled = demo\<lparr>IS_TEST_DATA_LABELED := True\<rparr>"

definition demo_mask :: "uint8 array3" where
  "demo_mask = [[[0,0,0],[255,0,0]],[[0,255,0],[0,0,0]]]"

definition demo_stray :: "uint8 array3" where
  "demo_stray = [[[0,0,0],[255,0,0]],[[7,7,7],[0,0,0]]]"

definition demo_prediction :: "rat array3" where
  "demo_prediction = [[[0, 0, 0], [1/4, 1/2, 1/4]], [[1/5, 2/5, 2/5], [1/2, 0, 1/2]]]"

definition wide_image :: "uint8 array3" where
  "wide_image = [[[1,2,3,255],[4,5,6,255]],[[7,8,9,255],[10,11,12,255]]]"

definition narrow_image :: "uint8 array3" where
  "narrow_image = [[[1,2],[4,5]],[[7,8],[10,11]]]"

definition disk :: "string list \<Rightarrow> (string \<times> raster) list \<Rightarrow> filesystem" where
  "disk ids files =
     \<lparr>listdir = (\<lambda>p. if p = ''train/images/'' \<or> p = ''test/images/'' then Some ids else None),
      imread = map_of files\<rparr>"

definition two_test_images :: "(string \<times> raster) list \<Rightarrow> filesystem" where
  "two_test_images mask_files = disk [''a.png'', ''b.png'']
     ([(''test/images/a.png'', Array3 wide_image), (''test/images/b.png'', Array3 demo_mask)] @
      mask_files)"

definition one_wide_file :: filesystem where
  "one_wide_file = disk [''a.png'']
     [(''train/images/a.png'', Array3 wide_image), (''train/masks/a.png'', Array3 demo_mask)]"

definition two_files :: filesystem where
  "two_files = disk [''a.png'', ''b.png'']
     [(''train/images/a.png'', Array3 wide_image), (''train/masks/a.png'', Array3 demo_mask),
      (''train/images/b.png'', Array3 narrow_image), (''train/masks/b.png'', Array3 demo_mask)]"

definition flat_mask :: filesystem where
  "flat_mask = disk [''a.png'']
     [(''test/images/a.png'', Array3 wide_image), (''test/masks/a.png'', Array2 [[0, 1], [1, 0]])]"

definition plateau :: "nat \<Rightarrow> real" where
  "plateau e = (if e = 0 then 1 else 2)"

definition demo_planes :: "real array4" where
  "demo_planes = [[[[1, 0], [0, 1]]]]"

definition demo_shifted :: "real array4" where
  "demo_shifted = [[[[0, 1], [1, 0]]]]"

definition blank_planes :: "real array4" where
  "blank_planes = [[[[0, 0], [0, 0]]]]"

section \<open>Properties\<close>

subsection \<open>Class codec\<close>

lemma emap_Inr: "(\<And>x. x \<in> set xs \<Longrightarrow> f x = Inr (g x)) \<Longrightarrow> emap f xs = Inr (map g xs)"
  by (induction xs) auto

lemma emap_Inr_length: "emap f xs = Inr ys \<Longrightarrow> length ys = length xs"
  by (induction xs arbitrary: ys) (auto split: sum.splits)

lemma emap_Inr_nth: "emap f xs = Inr ys \<Longrightarrow> i < length xs \<Longrightarrow> f (xs ! i) = Inr (ys ! i)"
  by (induction xs arbitrary: ys i) (auto split: sum.splits simp: nth_Cons split: nat.splits)

lemma stretch_same [simp]: "length xs = n \<Longrightarrow> stretch n xs = xs"
  by (simp add: stretch_def)

lemma broadcast_len_same [simp]: "broadcast_len n n = Inr n"
  by (simp add: broadcast_len_def)

lemma broadcast_to_same [simp]: "length xs = n \<Longrightarrow> broadcast_to n xs = Inr xs"
  by (simp add: broadcast_to_def)

lemma list_all2_fun_eq: "list_all2 (\<lambda>p k. f p = k) xs ys \<longleftrightarrow> map f xs = ys"
  by (induction xs arbitrary: ys) (auto simp: list_all2_Cons1)

lemma is_array3_D:
  assumes "is_array3 (h, w, c) a"
  shows "length a = h"
    and "\<And>row. row \<in> set a \<Longrightarrow> length row = w"
    and "\<And>row p. row \<in> set a \<Longrightarrow> p \<in> set row \<Longrightarrow> length p = c"
  using assms by (auto simp: is_array3_def list_all_iff)

lemma pixel_equals_same:
  "length px = C \<Longrightarrow> length color = C \<Longrightarrow> pixel_equals C color px = Inr (map uint px = color)"
  by (simp add: pixel_equals_def list_all2_fun_eq)

lemma class_plane_array:
  assumes "is_array3 (S, S, C) msk" and "length color = C"
  shows "class_plane S C msk color = Inr (map (map (\<lambda>px. map uint px = color)) msk)"
proof -
  have row: "(case emap (pixel_equals C color) row of Inl e \<Rightarrow> Inl e | Inr bs \<Rightarrow> broadcast_to S bs)
               = Inr (map (\<lambda>px. map uint px = color) row)"
    if "row \<in> set msk" for row
  proof -
    have "emap (pixel_equals C color) row = Inr (map (\<lambda>px. map uint px = color) row)"
      using is_array3_D(3) [OF assms(1) that] assms(2)
      by (intro emap_Inr) (simp add: pixel_equals_same)
    then show ?thesis
      using is_array3_D(2) [OF assms(1) that] by simp
  qed
  have "emap (\<lambda>row. case emap (pixel_equals C color) row of Inl e \<Rightarrow> Inl e
                        | Inr bs \<Rightarrow> broadcast_to S bs) msk
          = Inr (map (map (\<lambda>px. map uint px = color)) msk)"
    by (intro emap_Inr) (simp add: row)
  then show ?thesis
    using is_array3_D(1) [OF assms(1)] assms(2) by (simp add: class_plane_def)
qed

lemma swapaxes_twice:
  "swapaxes01 (c, b, a) (swapaxes02 (a, b, c) arr) =
     map (\<lambda>j. map (\<lambda>k. map (\<lambda>i. arr ! i ! j ! k) [0..<a]) [0..<c]) [0..<b]"
  by (simp add: swapaxes01_def swapaxes02_def cong: map_cong)

lemma map_map_nth:
  assumes "length xss = h" and "\<forall>row \<in> set xss. length row = w"
  shows "map (\<lambda>j. map (\<lambda>k. f (xss ! j ! k)) [0..<w]) [0..<h] = map (map f) xss"
proof (rule nth_equalityI)
  show "length (map (\<lambda>j. map (\<lambda>k. f (xss ! j ! k)) [0..<w]) [0..<h]) = length (map (map f) xss)"
    using assms by simp
next
  fix j assume "j < length (map (\<lambda>j. map (\<lambda>k. f (xss ! j ! k)) [0..<w]) [0..<h])"
  then have j: "j < h" by simp
  then have "length (xss ! j) = w" using assms by simp
  then have "map (\<lambda>k. f (xss ! j ! k)) [0..<w] = map f (xss ! j)"
    by (intro nth_equalityI) simp_all
  then show "map (\<lambda>j. map (\<lambda>k. f (xss ! j ! k)) [0..<w]) [0..<h] ! j = map (map f) xss ! j"
    using j assms by simp
qed

lemma mask_to_classes_array:
  assumes "is_array3 (IMG_SIZE self, IMG_SIZE self, IMG_CHANNELS self) msk"
    and "\<forall>cl \<in> set (CLASSES self). length (fst cl) = IMG_CHANNELS self"
  shows "mask_to_classes self msk =
           Inr (map (map (\<lambda>px. map (\<lambda>cl. map uint px = fst cl) (CLASSES self))) msk)"
proof -
  let ?S = "IMG_SIZE self" and ?C = "IMG_CHANNELS self" and ?N = "NUM_CLASSES self"
  let ?planes = "map (\<lambda>cl. map (map (\<lambda>px. map uint px = fst cl)) msk) (CLASSES self)"
  have planes: "emap (\<lambda>(color, _). class_plane ?S ?C msk color) (CLASSES self) = Inr ?planes"
    using assms by (intro emap_Inr) (auto simp: class_plane_array split: prod.splits)
  have len: "length msk = ?S" and rows: "\<forall>row \<in> set msk. length row = ?S"
    using is_array3_D(1,2) [OF assms(1)] by auto
  have cls: "map (\<lambda>i. ?planes ! i ! j ! k) [0..<?N] =
               map (\<lambda>cl. map uint (msk ! j ! k) = fst cl) (CLASSES self)"
    if "j < ?S" "k < ?S" for j k
    using that len rows by (intro nth_equalityI) (simp_all add: NUM_CLASSES_def)
  have "swapaxes01 (?S, ?S, ?N) (swapaxes02 (?N, ?S, ?S) ?planes)
          = map (\<lambda>j. map (\<lambda>k. map (\<lambda>cl. map uint (msk ! j ! k) = fst cl) (CLASSES self))
                 [0..<?S]) [0..<?S]"
    unfolding swapaxes_twice by (simp add: cls cong: map_cong)
  also have "\<dots> = map (map (\<lambda>px. map (\<lambda>cl. map uint px = fst cl) (CLASSES self))) msk"
    using len rows by (rule map_map_nth)
  finally have "swapaxes01 (?S, ?S, ?N) (swapaxes02 (?N, ?S, ?S) ?planes)
          = map (map (\<lambda>px. map (\<lambda>cl. map uint px = fst cl) (CLASSES self))) msk" .
  then show ?thesis
    by (simp add: mask_to_classes_def planes)
qed

lemma argmax_from_spec:
  assumes "bi < length pre" and "pre ! bi = best" and "\<forall>k<length pre. pre ! k \<le> best"
    and "\<forall>k<bi. pre ! k < best" and "i = length pre"
  shows "argmax_from best bi i ys < length (pre @ ys) \<and>
         (\<forall>k<length (pre @ ys). (pre @ ys) ! k \<le> (pre @ ys) ! argmax_from best bi i ys) \<and>
         (\<forall>k<argmax_from best bi i ys. (pre @ ys) ! k < (pre @ ys) ! argmax_from best bi i ys)"
  using assms
proof (induction ys arbitrary: best bi i pre)
  case Nil
  then show ?case by simp
next
  case (Cons y ys)
  show ?case
  proof (cases "best < y")
    case True
    have "argmax_from y (length pre) (Suc (length pre)) ys < length ((pre @ [y]) @ ys) \<and>
         (\<forall>k<length ((pre @ [y]) @ ys). ((pre @ [y]) @ ys) ! k \<le> ((pre @ [y]) @ ys) ! argmax_from y (length pre) (Suc (length pre)) ys) \<and>
         (\<forall>k<argmax_from y (length pre) (Suc (length pre)) ys. ((pre @ [y]) @ ys) ! k < ((pre @ [y]) @ ys) ! argmax_from y (length pre) (Suc (length pre)) ys)"
    proof (rule Cons.IH)
      show "\<forall>k<length (pre @ [y]). (pre @ [y]) ! k \<le> y"
        using Cons.prems(3) True by (auto simp: nth_append less_Suc_eq intro: order.strict_implies_order order.trans)
      show "\<forall>k<length pre. (pre @ [y]) ! k < y"
        using Cons.prems(3) True by (auto simp: nth_append)
    qed simp_all
    then show ?thesis using True Cons.prems(5) by simp
  next
    case False
    have "argmax_from best bi (Suc (length pre)) ys < length ((pre @ [y]) @ ys) \<and>
         (\<forall>k<length ((pre @ [y]) @ ys). ((pre @ [y]) @ ys) ! k \<le> ((pre @ [y]) @ ys) ! argmax_from best bi (Suc (length pre)) ys) \<and>
         (\<forall>k<argmax_from best bi (Suc (length pre)) ys. ((pre @ [y]) @ ys) ! k < ((pre @ [y]) @ ys) ! argmax_from best bi (Suc (length pre)) ys)"
    proof (rule Cons.IH)
      show "bi < length (pre @ [y])" using Cons.prems(1) by simp
      show "(pre @ [y]) ! bi = best" using Cons.prems(1,2) by (simp add: nth_append)
      show "\<forall>k<length (pre @ [y]). (pre @ [y]) ! k \<le> best"
        using Cons.prems(3) False by (auto simp: nth_append less_Suc_eq)
      show "\<forall>k<bi. (pre @ [y]) ! k < best"
        using Cons.prems(1,4) by (auto simp: nth_append)
    qed simp
    then show ?thesis using False Cons.prems(5) by simp
  qed
qed

lemma np_argmax_idx: "xs \<noteq> [] \<Longrightarrow> np_argmax xs = Inr (argmax_idx xs)"
  by (cases xs) (simp_all add: np_argmax_def argmax_idx_def)

lemma argmax_idx_spec:
  assumes "xs \<noteq> []"
  shows "argmax_idx xs < length xs"
    and "\<And>k. k < length xs \<Longrightarrow> xs ! k \<le> xs ! argmax_idx xs"
    and "\<And>k. k < argmax_idx xs \<Longrightarrow> xs ! k < xs ! argmax_idx xs"
proof -
  obtain x rest where xs: "xs = x # rest" using assms by (cases xs) auto
  have "argmax_from x 0 1 rest < length ([x] @ rest) \<and>
        (\<forall>k<length ([x] @ rest). ([x] @ rest) ! k \<le> ([x] @ rest) ! argmax_from x 0 1 rest) \<and>
        (\<forall>k<argmax_from x 0 1 rest. ([x] @ rest) ! k < ([x] @ rest) ! argmax_from x 0 1 rest)"
    by (rule argmax_from_spec) simp_all
  then show "argmax_idx xs < length xs"
    and "\<And>k. k < length xs \<Longrightarrow> xs ! k \<le> xs ! argmax_idx xs"
    and "\<And>k. k < argmax_idx xs \<Longrightarrow> xs ! k < xs ! argmax_idx xs"
    by (simp_all add: xs argmax_idx_def)
qed

lemma argmax_idx_unique:
  assumes "i < length xs" and "\<forall>k<length xs. xs ! k \<le> xs ! i" and "\<forall>k<i. xs ! k < xs ! i"
  shows "argmax_idx xs = i"
proof -
  have ne: "xs \<noteq> []" using assms(1) by auto
  note s = argmax_idx_spec [OF ne]
  show ?thesis
  proof (rule linorder_cases [of "argmax_idx xs" i])
    assume "argmax_idx xs < i"
    then have "xs ! argmax_idx xs < xs ! i" using assms(3) by simp
    moreover have "xs ! i \<le> xs ! argmax_idx xs" using s(2) assms(1) by simp
    ultimately show ?thesis by simp
  next
    assume "i < argmax_idx xs"
    then have "xs ! i < xs ! argmax_idx xs" using s(3) by simp
    moreover have "xs ! argmax_idx xs \<le> xs ! i" using s(1) assms(2) by simp
    ultimately show ?thesis by simp
  qed simp
qed

lemma map2_map_map: "map2 f (map a xs) (map b xs) = map (\<lambda>x. f (a x) (b x)) xs"
  by (induction xs) simp_all

lemma map2_map2_map_map:
  "map2 (map2 f) (map (map a) xss) (map (map b) xss) = map (map (\<lambda>x. f (a x) (b x))) xss"
  by (induction xss) (simp_all add: map2_map_map)

lemma assign_where_map:
  assumes "length k = C \<or> length k = 1"
  shows "assign_where C (map (map a) P) cn k (map (map b) P) =
           Inr (map (map (\<lambda>v. if a v = cn then uint8_colour C k else b v)) P)"
  using assms by (simp add: assign_where_def broadcast_to_def map2_map2_map_map uint8_colour_def)

lemma paint_classes_map:
  assumes "\<forall>cl \<in> set rest. length (fst cl) = C \<or> length (fst cl) = 1"
  shows "paint_classes C (map (map a) P) cn rest (map (map b) P) =
           Inr (map (map (\<lambda>v. if cn \<le> a v \<and> a v < cn + length rest
                                then uint8_colour C (fst (rest ! (a v - cn))) else b v)) P)"
  using assms
proof (induction rest arbitrary: cn b)
  case Nil
  then show ?case by auto
next
  case (Cons cl rest)
  obtain k l where cl: "cl = (k, l)" by (cases cl)
  have k: "length k = C \<or> length k = 1" using Cons.prems cl by simp
  have rest: "\<forall>cl \<in> set rest. length (fst cl) = C \<or> length (fst cl) = 1"
    using Cons.prems by simp
  have "paint_classes C (map (map a) P) cn (cl # rest) (map (map b) P) =
          paint_classes C (map (map a) P) (Suc cn) rest
            (map (map (\<lambda>v. if a v = cn then uint8_colour C k else b v)) P)"
    by (simp add: cl assign_where_map [OF k])
  also have "\<dots> = Inr (map (map (\<lambda>v. if Suc cn \<le> a v \<and> a v < Suc cn + length rest
                                then uint8_colour C (fst (rest ! (a v - Suc cn)))
                                else if a v = cn then uint8_colour C k else b v)) P)"
    by (rule Cons.IH [OF rest])
  also have "\<dots> = Inr (map (map (\<lambda>v. if cn \<le> a v \<and> a v < cn + length (cl # rest)
                                then uint8_colour C (fst ((cl # rest) ! (a v - cn))) else b v)) P)"
  proof -
    have "(if Suc cn \<le> i \<and> i < Suc cn + length rest
           then uint8_colour C (fst (rest ! (i - Suc cn)))
           else if i = cn then uint8_colour C k else px) =
          (if cn \<le> i \<and> i < cn + length (cl # rest)
           then uint8_colour C (fst ((cl # rest) ! (i - cn))) else px)" for i px
    proof (cases "Suc cn \<le> i")
      case True
      then have "i - cn = Suc (i - Suc cn)" by simp
      then show ?thesis using True by simp
    next
      case False
      then show ?thesis by (auto simp: cl)
    qed
    then show ?thesis by simp
  qed
  finally show ?case .
qed

lemma prediction_to_mask_array:
  assumes "\<forall>row \<in> set P. \<forall>v \<in> set row. v \<noteq> []"
    and "\<forall>cl \<in> set (CLASSES self). length (fst cl) = IMG_CHANNELS self \<or> length (fst cl) = 1"
  shows "prediction_to_mask self P =
           Inr (map (map (\<lambda>v. if argmax_idx v < NUM_CLASSES self
                               then uint8_colour (IMG_CHANNELS self) (fst (CLASSES self ! argmax_idx v))
                               else replicate (IMG_CHANNELS self) 0)) P)"
proof -
  have "emap (emap np_argmax) P = Inr (map (map argmax_idx) P)"
    using assms(1) by (intro emap_Inr) (simp add: np_argmax_idx)
  then show ?thesis
    using paint_classes_map [OF assms(2), of "argmax_idx" P 0 "\<lambda>_. replicate (IMG_CHANNELS self) 0"]
    by (simp add: prediction_to_mask_def NUM_CLASSES_def)
qed

lemma array_nth:
  assumes "is_array3 (h, w, c) a" and "x < h" and "y < w"
  shows "a ! x \<in> set a" and "a ! x ! y \<in> set (a ! x)" and "length (a ! x ! y) = c"
proof -
  show 1: "a ! x \<in> set a" using assms is_array3_D(1) [OF assms(1)] by simp
  show 2: "a ! x ! y \<in> set (a ! x)" using assms is_array3_D(2) [OF assms(1) 1] by simp
  show "length (a ! x ! y) = c" using is_array3_D(3) [OF assms(1) 1 2] .
qed

text \<open>
  Claim C4. For a mask of shape (S, S, C) whose every pixel equals the colour of a class,
  with the colours of the class table pairwise distinct and of C channels each,
  \<open>mask_to_classes\<close> returns an array of shape (S, S, NUM_CLASSES) whose entry i at a
  pixel tells whether the pixel has the colour of the i-th entry of the class table, and
  exactly one entry is true at every pixel.
\<close>

theorem mask_to_classes_one_hot:
  assumes "is_array3 (IMG_SIZE self, IMG_SIZE self, IMG_CHANNELS self) msk"
    and "\<forall>cl \<in> set (CLASSES self). length (fst cl) = IMG_CHANNELS self"
    and "distinct (map fst (CLASSES self))"
    and "\<forall>row \<in> set msk. \<forall>px \<in> set row. map uint px \<in> fst ` set (CLASSES self)"
  shows "\<exists>planes. mask_to_classes self msk = Inr planes \<and>
           is_array3 (IMG_SIZE self, IMG_SIZE self, NUM_CLASSES self) planes \<and>
           (\<forall>x<IMG_SIZE self. \<forall>y<IMG_SIZE self.
              (\<forall>i<NUM_CLASSES self.
                 planes ! x ! y ! i = (map uint (msk ! x ! y) = fst (CLASSES self ! i))) \<and>
              (\<exists>!i. i < NUM_CLASSES self \<and> planes ! x ! y ! i))"
proof -
  let ?S = "IMG_SIZE self" and ?N = "NUM_CLASSES self"
  let ?planes = "map (map (\<lambda>px. map (\<lambda>cl. map uint px = fst cl) (CLASSES self))) msk"
  have enc: "mask_to_classes self msk = Inr ?planes"
    using assms(1,2) by (rule mask_to_classes_array)
  have shape: "is_array3 (?S, ?S, ?N) ?planes"
    using assms(1) by (auto simp: is_array3_def list_all_iff NUM_CLASSES_def)
  have px: "(\<forall>i<?N. ?planes ! x ! y ! i = (map uint (msk ! x ! y) = fst (CLASSES self ! i))) \<and>
            (\<exists>!i. i < ?N \<and> ?planes ! x ! y ! i)"
    if xy: "x < ?S" "y < ?S" for x y
  proof -
    note a = array_nth [OF assms(1) xy]
    have lx: "x < length msk" and ly: "y < length (msk ! x)"
      using is_array3_D(1) [OF assms(1)] is_array3_D(2) [OF assms(1) a(1)] xy by simp_all
    have at: "?planes ! x ! y ! i = (map uint (msk ! x ! y) = fst (CLASSES self ! i))"
      if "i < ?N" for i
      using that lx ly by (simp add: NUM_CLASSES_def)
    have "map uint (msk ! x ! y) \<in> fst ` set (CLASSES self)"
      using assms(4) a(1,2) by blast
    then have "map uint (msk ! x ! y) \<in> set (map fst (CLASSES self))" by simp
    then obtain i where i: "i < ?N" "map uint (msk ! x ! y) = fst (CLASSES self ! i)"
      by (auto simp: in_set_conv_nth NUM_CLASSES_def)
    have "j = i" if "j < ?N" "map uint (msk ! x ! y) = fst (CLASSES self ! j)" for j
    proof -
      have "map fst (CLASSES self) ! j = map fst (CLASSES self) ! i"
        using that i by (simp add: NUM_CLASSES_def)
      moreover have "j < length (map fst (CLASSES self))" "i < length (map fst (CLASSES self))"
        using that(1) i(1) by (simp_all add: NUM_CLASSES_def)
      ultimately show ?thesis
        using assms(3) nth_eq_iff_index_eq by blast
    qed
    then have "\<exists>!i. i < ?N \<and> ?planes ! x ! y ! i"
      using i at by blast
    then show ?thesis using at by blast
  qed
  show ?thesis
    using enc shape px by blast
qed

theorem mask_to_classes_one_hot_witness:
  "is_array3 (IMG_SIZE demo, IMG_SIZE demo, IMG_CHANNELS demo) demo_mask \<and>
   distinct (map fst (CLASSES demo)) \<and>
   (\<exists>planes. mask_to_classes demo demo_mask = Inr planes \<and>
           is_array3 (IMG_SIZE demo, IMG_SIZE demo, NUM_CLASSES demo) planes \<and>
           (\<forall>x<IMG_SIZE demo. \<forall>y<IMG_SIZE demo.
              (\<forall>i<NUM_CLASSES demo.
                 planes ! x ! y ! i = (map uint (demo_mask ! x ! y) = fst (CLASSES demo ! i))) \<and>
              (\<exists>!i. i < NUM_CLASSES demo \<and> planes ! x ! y ! i)))"
proof -
  have 1: "is_array3 (IMG_SIZE demo, IMG_SIZE demo, IMG_CHANNELS demo) demo_mask"
    by (simp add: demo_def demo_mask_def is_array3_def)
  have 2: "\<forall>cl \<in> set (CLASSES demo). length (fst cl) = IMG_CHANNELS demo"
    by (simp add: demo_def)
  have 3: "distinct (map fst (CLASSES demo))"
    by (simp add: demo_def)
  have 4: "\<forall>row \<in> set demo_mask. \<forall>px \<in> set row. map uint px \<in> fst ` set (CLASSES demo)"
    by (simp add: demo_def demo_mask_def)
  show ?thesis
    using 1 2 3 4 mask_to_classes_one_hot [OF 1 2 3 4] by blast
qed

lemma uint8_colour_uint: "length px = C \<Longrightarrow> uint8_colour C (map uint px) = px"
  by (simp add: uint8_colour_def map_idI)

text \<open>
  Claim C1. For a mask of shape (S, S, C) whose every pixel equals the colour of some
  class of the table (colours of C channels each), decoding the encoded label planes gives
  the mask back: \<open>_prediction_to_mask(mask_to_classes(mask)) = mask\<close>. The colours need
  not be distinct for this: the decoder paints the first class whose plane is true, and
  that class has the colour of the pixel.
\<close>

theorem prediction_to_mask_mask_to_classes:
  assumes "is_array3 (IMG_SIZE self, IMG_SIZE self, IMG_CHANNELS self) msk"
    and "\<forall>cl \<in> set (CLASSES self). length (fst cl) = IMG_CHANNELS self"
    and "\<forall>row \<in> set msk. \<forall>px \<in> set row. map uint px \<in> fst ` set (CLASSES self)"
  shows "\<exists>planes. mask_to_classes self msk = Inr planes \<and> prediction_to_mask self planes = Inr msk"
proof -
  let ?C = "IMG_CHANNELS self" and ?N = "NUM_CLASSES self"
  let ?hot = "\<lambda>px. map (\<lambda>cl. map uint px = fst cl) (CLASSES self)"
  let ?planes = "map (map ?hot) msk"
  let ?paint = "\<lambda>v. if argmax_idx v < ?N then uint8_colour ?C (fst (CLASSES self ! argmax_idx v))
                     else replicate ?C 0"
  have enc: "mask_to_classes self msk = Inr ?planes"
    using assms(1,2) by (rule mask_to_classes_array)
  have restore: "?paint (?hot px) = px" if row: "row \<in> set msk" and px: "px \<in> set row" for row px
  proof -
    have len: "length px = ?C" using is_array3_D(3) [OF assms(1) row px] .
    have "map uint px \<in> set (map fst (CLASSES self))" using assms(3) row px by simp
    then obtain i where i: "i < length (CLASSES self)" "fst (CLASSES self ! i) = map uint px"
      by (auto simp: in_set_conv_nth)
    then have ne: "?hot px \<noteq> []" by auto
    let ?j = "argmax_idx (?hot px)"
    have j: "?j < length (CLASSES self)" using argmax_idx_spec(1) [OF ne] by simp
    have "?hot px ! i \<le> ?hot px ! ?j" using argmax_idx_spec(2) [OF ne, of i] i(1) by simp
    moreover have "?hot px ! i" using i by simp
    ultimately have "?hot px ! ?j" by simp
    then have "fst (CLASSES self ! ?j) = map uint px" using j by simp
    then show ?thesis using j len by (simp add: NUM_CLASSES_def uint8_colour_uint)
  qed
  have nonempty: "\<forall>row \<in> set ?planes. \<forall>v \<in> set row. v \<noteq> []"
  proof (intro ballI)
    fix prow v assume "prow \<in> set ?planes" "v \<in> set prow"
    then obtain row px where "row \<in> set msk" "px \<in> set row" "v = ?hot px" by auto
    moreover from this have "map uint px \<in> fst ` set (CLASSES self)" using assms(3) by blast
    ultimately show "v \<noteq> []" by auto
  qed
  have fit: "\<forall>cl \<in> set (CLASSES self). length (fst cl) = ?C \<or> length (fst cl) = 1"
    using assms(2) by simp
  have "prediction_to_mask self ?planes = Inr (map (map ?paint) ?planes)"
    using nonempty fit by (rule prediction_to_mask_array)
  also have "map (map ?paint) ?planes = map (map (\<lambda>px. ?paint (?hot px))) msk"
    by (simp add: comp_def)
  also have "\<dots> = map (map (\<lambda>px. px)) msk"
    using restore by (intro map_cong refl) 
  finally have "prediction_to_mask self ?planes = Inr msk" by simp
  then show ?thesis using enc by blast
qed

theorem prediction_to_mask_mask_to_classes_witness:
  "is_array3 (IMG_SIZE demo, IMG_SIZE demo, IMG_CHANNELS demo) demo_mask \<and>
   (\<exists>planes. mask_to_classes demo demo_mask = Inr planes \<and>
              prediction_to_mask demo planes = Inr demo_mask)"
proof -
  have 1: "is_array3 (IMG_SIZE demo, IMG_SIZE demo, IMG_CHANNELS demo) demo_mask"
    by (simp add: demo_def demo_mask_def is_array3_def)
  have 2: "\<forall>cl \<in> set (CLASSES demo). length (fst cl) = IMG_CHANNELS demo"
    by (simp add: demo_def)
  have 3: "\<forall>row \<in> set demo_mask. \<forall>px \<in> set row. map uint px \<in> fst ` set (CLASSES demo)"
    by (simp add: demo_def demo_mask_def)
  show ?thesis
    using 1 2 3 prediction_to_mask_mask_to_classes [OF 1 2 3] by blast
qed

text \<open>
  Claim C5. A pixel of a mask whose colour is the colour of no class gets an all-false
  class vector from \<open>mask_to_classes\<close>, which returns normally. A pixel of a prediction
  gets from \<open>_prediction_to_mask\<close> the colour of the class with the lowest index among
  those that hold the maximum of its class vector; for an all-zero vector that is class 0.
\<close>

theorem unmatched_pixel_and_argmax_tie:
  assumes "\<forall>cl \<in> set (CLASSES self). length (fst cl) = IMG_CHANNELS self"
  shows "(is_array3 (IMG_SIZE self, IMG_SIZE self, IMG_CHANNELS self) msk \<longrightarrow>
          x < IMG_SIZE self \<longrightarrow> y < IMG_SIZE self \<longrightarrow>
          map uint (msk ! x ! y) \<notin> fst ` set (CLASSES self) \<longrightarrow>
          (\<exists>planes. mask_to_classes self msk = Inr planes \<and>
                     planes ! x ! y = replicate (NUM_CLASSES self) False)) \<and>
         (is_array3 (h, w, NUM_CLASSES self) prediction \<longrightarrow>
          x' < h \<longrightarrow> y' < w \<longrightarrow> i < NUM_CLASSES self \<longrightarrow>
          (\<forall>k<NUM_CLASSES self. prediction ! x' ! y' ! k \<le> prediction ! x' ! y' ! i) \<longrightarrow>
          (\<forall>k<i. prediction ! x' ! y' ! k < prediction ! x' ! y' ! i) \<longrightarrow>
          (\<exists>out. prediction_to_mask self prediction = Inr out \<and>
                  out ! x' ! y' = map word_of_int (fst (CLASSES self ! i))))"
proof (intro conjI impI)
  let ?S = "IMG_SIZE self" and ?C = "IMG_CHANNELS self" and ?N = "NUM_CLASSES self"
  assume arr: "is_array3 (?S, ?S, ?C) msk" and xy: "x < ?S" "y < ?S"
    and stray: "map uint (msk ! x ! y) \<notin> fst ` set (CLASSES self)"
  let ?hot = "\<lambda>px. map (\<lambda>cl. map uint px = fst cl) (CLASSES self)"
  have enc: "mask_to_classes self msk = Inr (map (map ?hot) msk)"
    using arr assms by (rule mask_to_classes_array)
  note a = array_nth [OF arr xy]
  have lx: "x < length msk" and ly: "y < length (msk ! x)"
    using is_array3_D(1) [OF arr] is_array3_D(2) [OF arr a(1)] xy by simp_all
  have "?hot (msk ! x ! y) = replicate ?N False"
    using stray by (intro nth_equalityI) (auto simp: NUM_CLASSES_def)
  then have "map (map ?hot) msk ! x ! y = replicate ?N False"
    using lx ly by simp
  then show "\<exists>planes. mask_to_classes self msk = Inr planes \<and>
                     planes ! x ! y = replicate ?N False"
    using enc by blast
next
  let ?C = "IMG_CHANNELS self" and ?N = "NUM_CLASSES self"
  let ?v = "prediction ! x' ! y'"
  assume arr: "is_array3 (h, w, ?N) prediction" and xy: "x' < h" "y' < w" and i: "i < ?N"
    and top: "\<forall>k<?N. ?v ! k \<le> ?v ! i" and first: "\<forall>k<i. ?v ! k < ?v ! i"
  let ?paint = "\<lambda>v. if argmax_idx v < ?N then uint8_colour ?C (fst (CLASSES self ! argmax_idx v))
                     else replicate ?C 0"
  have nonempty: "\<forall>row \<in> set prediction. \<forall>v \<in> set row. v \<noteq> []"
    using is_array3_D(3) [OF arr] i by fastforce
  have fit: "\<forall>cl \<in> set (CLASSES self). length (fst cl) = ?C \<or> length (fst cl) = 1"
    using assms by simp
  have dec: "prediction_to_mask self prediction = Inr (map (map ?paint) prediction)"
    using nonempty fit by (rule prediction_to_mask_array)
  note a = array_nth [OF arr xy]
  have lx: "x' < length prediction" and ly: "y' < length (prediction ! x')"
    using is_array3_D(1) [OF arr] is_array3_D(2) [OF arr a(1)] xy by simp_all
  have "argmax_idx ?v = i"
    using i top first a(3) by (intro argmax_idx_unique) simp_all
  moreover have "length (fst (CLASSES self ! i)) = ?C"
    using assms i by (simp add: NUM_CLASSES_def)
  ultimately have "map (map ?paint) prediction ! x' ! y' = map word_of_int (fst (CLASSES self ! i))"
    using lx ly i by (simp add: uint8_colour_def)
  then show "\<exists>out. prediction_to_mask self prediction = Inr out \<and>
                  out ! x' ! y' = map word_of_int (fst (CLASSES self ! i))"
    using dec by blast
qed

theorem unmatched_pixel_and_argmax_tie_witness:
  "is_array3 (IMG_SIZE demo, IMG_SIZE demo, IMG_CHANNELS demo) demo_stray \<and>
   (1::nat) < IMG_SIZE demo \<and> (0::nat) < IMG_SIZE demo \<and>
   map uint (demo_stray ! 1 ! 0) \<notin> fst ` set (CLASSES demo) \<and>
   (\<exists>planes. mask_to_classes demo demo_stray = Inr planes \<and>
              planes ! 1 ! 0 = replicate (NUM_CLASSES demo) False) \<and>
   is_array3 (2, 2, NUM_CLASSES demo) demo_prediction \<and>
   (0::nat) < NUM_CLASSES demo \<and>
   (\<exists>out. prediction_to_mask demo demo_prediction = Inr out \<and>
           out ! 0 ! 0 = map word_of_int (fst (CLASSES demo ! 0)))"
proof -
  have 1: "\<forall>cl \<in> set (CLASSES demo). length (fst cl) = IMG_CHANNELS demo"
    by (simp add: demo_def)
  have 2: "is_array3 (IMG_SIZE demo, IMG_SIZE demo, IMG_CHANNELS demo) demo_stray"
    by (simp add: demo_def demo_stray_def is_array3_def)
  have 3: "(1::nat) < IMG_SIZE demo" "(0::nat) < IMG_SIZE demo"
    by (simp_all add: demo_def)
  have 4: "map uint (demo_stray ! 1 ! 0) \<notin> fst ` set (CLASSES demo)"
    by (simp add: demo_def demo_stray_def)
  have 5: "is_array3 (2, 2, NUM_CLASSES demo) demo_prediction"
    by (simp add: demo_def demo_prediction_def is_array3_def NUM_CLASSES_def)
  have 6: "(0::nat) < NUM_CLASSES demo"
    by (simp add: demo_def NUM_CLASSES_def)
  have 7: "\<forall>k<NUM_CLASSES demo. demo_prediction ! 0 ! 0 ! k \<le> demo_prediction ! 0 ! 0 ! 0"
    by (simp add: demo_def demo_prediction_def NUM_CLASSES_def less_Suc_eq numeral_3_eq_3)
  have 8: "\<forall>k<0::nat. demo_prediction ! 0 ! 0 ! k < demo_prediction ! 0 ! 0 ! 0"
    by simp
  show ?thesis
    using 1 2 3 4 5 6 7 8
      unmatched_pixel_and_argmax_tie [OF 1, of demo_stray 1 0 2 2 demo_prediction 0 0 0]
    by simp
qed

subsection \<open>Dataset loader\<close>

lemma load_loop_append_labeled:
  "load_loop self fs path word True (xs @ ys) arrays =
     (case load_loop self fs path word True xs arrays of
        Returned arrays' \<Rightarrow> load_loop self fs path word True ys arrays'
      | Raised e arrays' \<Rightarrow> Raised e arrays')"
  by (induction self fs path word True xs arrays rule: load_loop.induct)
     (simp_all split: sum.splits)

lemma load_loop_append_unlabeled:
  "load_loop self fs path word False (xs @ ys) arrays =
     (case load_loop self fs path word False xs arrays of
        Returned arrays' \<Rightarrow> load_loop self fs path word False ys arrays'
      | Raised e arrays' \<Rightarrow> Raised e arrays')"
  by (induction self fs path word False xs arrays rule: load_loop.induct)
     (simp_all split: sum.splits)

lemma load_loop_append:
  "load_loop self fs path word labeled (xs @ ys) arrays =
     (case load_loop self fs path word labeled xs arrays of
        Returned arrays' \<Rightarrow> load_loop self fs path word labeled ys arrays'
      | Raised e arrays' \<Rightarrow> Raised e arrays')"
  by (cases labeled) (simp_all only: load_loop_append_labeled load_loop_append_unlabeled)

lemma take_Suc_update: "k < length xs \<Longrightarrow> take (Suc k) (xs[k := x]) = take k xs @ [x]"
  by (simp add: take_Suc_conv_app_nth)

lemma load_loop_returns:
  assumes "\<forall>ident \<in> set ids. read_image self fs path word ident = Inr (fi ident)"
    and "labeled \<longrightarrow> (\<forall>ident \<in> set ids. read_mask self fs path ident = Inr (fm ident))"
    and "k + length ids \<le> length images"
    and "k + length ids \<le> length masks"
  shows "load_loop self fs path word labeled (enumerate k ids) (images, masks) =
           Returned (take k images @ map fi ids @ drop (k + length ids) images,
                     if labeled then take k masks @ map fm ids @ drop (k + length ids) masks
                     else masks)"
  using assms
proof (induction ids arbitrary: k images masks)
  case Nil
  then show ?case by simp
next
  case (Cons ident ids)
  have img: "read_image self fs path word ident = Inr (fi ident)"
    using Cons.prems(1) by simp
  have k: "k < length images" "k < length masks"
    using Cons.prems(3,4) by simp_all
  have rest1: "\<forall>ident \<in> set ids. read_image self fs path word ident = Inr (fi ident)"
    using Cons.prems(1) by simp
  have rest2: "labeled \<longrightarrow> (\<forall>ident \<in> set ids. read_mask self fs path ident = Inr (fm ident))"
    using Cons.prems(2) by simp
  show ?case
  proof (cases labeled)
    case True
    have msk: "read_mask self fs path ident = Inr (fm ident)"
      using Cons.prems(2) True by simp
    have "load_loop self fs path word labeled (enumerate k (ident # ids)) (images, masks) =
            load_loop self fs path word labeled (enumerate (Suc k) ids)
              (images[k := fi ident], masks[k := fm ident])"
      using True by (simp add: img msk)
    also have "\<dots> = Returned
         (take (Suc k) (images[k := fi ident]) @ map fi ids @
            drop (Suc k + length ids) (images[k := fi ident]),
          if labeled then take (Suc k) (masks[k := fm ident]) @ map fm ids @
            drop (Suc k + length ids) (masks[k := fm ident])
          else masks[k := fm ident])"
      using Cons.prems(3,4) by (intro Cons.IH rest1 rest2) simp_all
    finally show ?thesis
      using True k by (simp add: take_Suc_update)
  next
    case False
    have "load_loop self fs path word labeled (enumerate k (ident # ids)) (images, masks) =
            load_loop self fs path word labeled (enumerate (Suc k) ids)
              (images[k := fi ident], masks)"
      using False by (simp add: img)
    also have "\<dots> = Returned
         (take (Suc k) (images[k := fi ident]) @ map fi ids @
            drop (Suc k + length ids) (images[k := fi ident]),
          if labeled then take (Suc k) masks @ map fm ids @ drop (Suc k + length ids) masks
          else masks)"
      using Cons.prems(3,4) by (intro Cons.IH rest1 rest2) simp_all
    finally show ?thesis
      using False k by (simp add: take_Suc_update)
  qed
qed

lemma store_image_array:
  assumes "is_array3 (S, S, c) a"
  shows "store_image S a = Inr a"
proof -
  have "emap (broadcast_to S) a = Inr (map (\<lambda>row. row) a)"
    using is_array3_D(2) [OF assms] by (intro emap_Inr) simp
  then show ?thesis
    using is_array3_D(1) [OF assms] by (simp add: store_image_def)
qed

lemma shape3_array:
  assumes "is_array3 (h, w, c) a" and "0 < h" and "0 < w"
  shows "shape3 a = (h, w, c)"
proof -
  obtain r rs where a: "a = r # rs"
    using is_array3_D(1) [OF assms(1)] assms(2) by (cases a) auto
  then have "length r = w" using is_array3_D(2) [OF assms(1), of r] by simp
  then obtain p ps where r: "r = p # ps" using assms(3) by (cases r) auto
  have "length p = c" using is_array3_D(3) [OF assms(1), of r p] a r by simp
  then show ?thesis
    using is_array3_D(1) [OF assms(1)] \<open>length r = w\<close> by (simp add: shape3_def a r)
qed

lemma is_array3_take:
  assumes "is_array3 (h, w, c) a"
  shows "is_array3 (h, w, min c C) (map (map (take C)) a)"
  using assms by (auto simp: is_array3_def list_all_iff)

lemma read_image_wide:
  assumes "imread fs (path @ ''images/'' @ ident) = Some (Array3 a)"
    and "is_array3 (IMG_SIZE self, IMG_SIZE self, c) a"
    and "IMG_CHANNELS self \<le> c" and "0 < IMG_SIZE self"
  shows "read_image self fs path word ident = Inr (map (map (take (IMG_CHANNELS self))) a)"
proof -
  have arr: "is_array3 (IMG_SIZE self, IMG_SIZE self, IMG_CHANNELS self)
               (map (map (take (IMG_CHANNELS self))) a)"
    using is_array3_take [OF assms(2), of "IMG_CHANNELS self"] assms(3) by (simp add: min_absorb2)
  show ?thesis
    using assms(1) shape3_array [OF arr assms(4) assms(4)] store_image_array [OF arr]
    by (simp add: read_image_def)
qed

lemma read_image_narrow:
  assumes "imread fs (path @ ''images/'' @ ident) = Some (Array3 a)"
    and "is_array3 (h, w, c) a" and "0 < h" and "0 < w"
    and "c < IMG_CHANNELS self"
  shows "read_image self fs path word ident =
           Inl (BaseException (''Invalid channel number in '' @ word @ '' image '' @ ident))"
proof -
  have arr: "is_array3 (h, w, c) (map (map (take (IMG_CHANNELS self))) a)"
    using is_array3_take [OF assms(2), of "IMG_CHANNELS self"] assms(5) by (simp add: min_absorb1)
  show ?thesis
    using assms(1,5) shape3_array [OF arr assms(3,4)]
    by (simp add: read_image_def)
qed

lemma read_mask_array:
  assumes "imread fs (path @ ''masks/'' @ ident) = Some (Array3 m)"
    and "is_array3 (IMG_SIZE self, IMG_SIZE self, IMG_CHANNELS self) m"
    and "0 < IMG_SIZE self"
    and "\<forall>cl \<in> set (CLASSES self). length (fst cl) = IMG_CHANNELS self"
  shows "read_mask self fs path ident =
           Inr (map (map (\<lambda>px. map (\<lambda>cl. map uint px = fst cl) (CLASSES self))) m)"
  using assms(1) shape3_array [OF assms(2,3,3)] mask_to_classes_array [OF assms(2,4)]
  by (simp add: read_mask_def)

lemma read_mask_channels:
  assumes "imread fs (path @ ''masks/'' @ ident) = Some (Array3 m)"
    and "is_array3 (h, w, c) m" and "0 < h" and "0 < w"
    and "c \<noteq> IMG_CHANNELS self"
  shows "read_mask self fs path ident =
           Inl (BaseException (''Invalid channel number in mask image '' @ ident))"
  using assms(1,5) shape3_array [OF assms(2,3,4)]
  by (simp add: read_mask_def)

lemma read_mask_2d:
  assumes "imread fs (path @ ''masks/'' @ ident) = Some (Array2 m)"
  shows "read_mask self fs path ident =
           Inl (BaseException (''Invalid channel number in mask image '' @ ident))"
  using assms by (simp add: read_mask_def)

lemma load_arrays_returns:
  assumes "listdir fs (path @ ''images/'') = Some ids"
    and "\<forall>ident \<in> set ids. read_image self fs path word ident = Inr (fi ident)"
    and "labeled \<longrightarrow> (\<forall>ident \<in> set ids. read_mask self fs path ident = Inr (fm ident))"
  shows "load_arrays self fs path word labeled =
           Inr (Returned (map fi ids,
                  if labeled then map fm ids
                  else replicate (length ids)
                         (zeros3 (IMG_SIZE self) (IMG_SIZE self) (NUM_CLASSES self) False)))"
  using load_loop_returns [OF assms(2,3), of 0
      "replicate (length ids) (zeros3 (IMG_SIZE self) (IMG_SIZE self) (IMG_CHANNELS self) 0)"
      "replicate (length ids) (zeros3 (IMG_SIZE self) (IMG_SIZE self) (NUM_CLASSES self) False)"]
  by (simp add: load_arrays_def assms(1))

lemma load_loop_raises_at:
  assumes "k < length ids"
    and "\<forall>j<k. read_image self fs path word (ids ! j) = Inr (fi (ids ! j))"
    and "labeled \<longrightarrow> (\<forall>j<k. read_mask self fs path (ids ! j) = Inr (fm (ids ! j)))"
    and "length images = length ids" and "length masks = length ids"
  shows "load_loop self fs path word labeled (enumerate 0 ids) (images, masks) =
           load_loop self fs path word labeled ((k, ids ! k) # enumerate (Suc k) (drop (Suc k) ids))
             (map fi (take k ids) @ drop k images,
              if labeled then map fm (take k ids) @ drop k masks else masks)"
proof -
  have split: "enumerate 0 ids =
                 enumerate 0 (take k ids) @ (k, ids ! k) # enumerate (Suc k) (drop (Suc k) ids)"
  proof -
    have "ids = take k ids @ ids ! k # drop (Suc k) ids"
      using assms(1) by (simp add: id_take_nth_drop [symmetric])
    then have "enumerate 0 ids = enumerate 0 (take k ids @ ids ! k # drop (Suc k) ids)"
      by simp
    also have "\<dots> = enumerate 0 (take k ids) @
                 (k, ids ! k) # enumerate (Suc k) (drop (Suc k) ids)"
      using assms(1) by (simp only: enumerate_append_eq) (simp add: min_def)
    finally show ?thesis .
  qed
  have pre1: "\<forall>ident \<in> set (take k ids). read_image self fs path word ident = Inr (fi ident)"
    using assms(1,2) by (auto simp: in_set_conv_nth)
  have pre2: "labeled \<longrightarrow>
               (\<forall>ident \<in> set (take k ids). read_mask self fs path ident = Inr (fm ident))"
    using assms(1,3) by (auto simp: in_set_conv_nth)
  have "load_loop self fs path word labeled (enumerate 0 (take k ids)) (images, masks) =
          Returned (take 0 images @ map fi (take k ids) @ drop (0 + length (take k ids)) images,
                    if labeled
                    then take 0 masks @ map fm (take k ids) @ drop (0 + length (take k ids)) masks
                    else masks)"
    using assms(1,4,5) by (intro load_loop_returns pre1 pre2) simp_all
  then have "load_loop self fs path word labeled (enumerate 0 (take k ids)) (images, masks) =
          Returned (map fi (take k ids) @ drop k images,
                    if labeled then map fm (take k ids) @ drop k masks else masks)"
    using assms(1) by (simp add: min_def)
  then show ?thesis
    by (simp only: split load_loop_append outcome.case)
qed

lemma load_loop_unlabeled_masks:
  "snd (state_of (load_loop self fs path word False items (images, masks))) = masks"
  by (induction self fs path word False items "(images, masks)" arbitrary: images
        rule: load_loop.induct)
     (simp_all split: sum.splits)

lemma load_loop_Returned_image:
  "load_loop self fs path word labeled items arrays = Returned arrays' \<Longrightarrow>
   (n, ident) \<in> set items \<Longrightarrow> \<exists>img. read_image self fs path word ident = Inr img"
  by (induction self fs path word labeled items arrays rule: load_loop.induct)
     (auto split: sum.splits if_splits)

lemma read_image_same_file:
  "imread fs' (path @ ''images/'' @ ident) = imread fs (path @ ''images/'' @ ident) \<Longrightarrow>
   read_image self fs' path word ident = read_image self fs path word ident"
  by (simp add: read_image_def)

lemma load_loop_unlabeled_same_images:
  assumes "\<forall>ident. imread fs' (path @ ''images/'' @ ident) = imread fs (path @ ''images/'' @ ident)"
  shows "load_loop self fs' path word False items arrays =
         load_loop self fs path word False items arrays"
proof (induction items arbitrary: arrays)
  case Nil
  show ?case by simp
next
  case (Cons x items)
  obtain n ident where x: "x = (n, ident)" by (cases x)
  obtain images masks where arrays: "arrays = (images, masks)" by (cases arrays)
  have "read_image self fs' path word ident = read_image self fs path word ident"
    using assms by (intro read_image_same_file) simp
  then show ?case
    by (simp add: x arrays Cons.IH split: sum.splits)
qed

text \<open>
  Claim C8. When the labeled flag is false, \<open>load_testing_images\<close> reads no mask file:
  its outcome is the same on any two disks that list the same test images and agree on the
  image files, whatever the mask files are (or whether they exist). The test label-plane
  array is zero-filled after the call, whether it returns or raises. The test image array
  is populated: when every listed image can be read, the call returns with the images
  that were read, in the order of the listing, and with zero-filled label planes; that is
  so in particular when every listed file is a 3-D array of S by S pixels with at least
  IMG_CHANNELS channels, and the images are these files cut down to IMG_CHANNELS
  channels. Conversely, when the call returns, every listed image was read and stored.
\<close>

theorem load_testing_images_unlabeled:
  fixes img :: "string \<Rightarrow> uint8 array3" and ci :: "string \<Rightarrow> nat"
  assumes "\<not> IS_TEST_DATA_LABELED self"
    and "listdir fs (PREPROCESSED_TEST_PATH self @ ''images/'') = Some ids"
    and "listdir fs' (PREPROCESSED_TEST_PATH self @ ''images/'') = Some ids"
    and "\<forall>ident. imread fs' (PREPROCESSED_TEST_PATH self @ ''images/'' @ ident) =
                 imread fs (PREPROCESSED_TEST_PATH self @ ''images/'' @ ident)"
  shows "load_testing_images self fs' = load_testing_images self fs \<and>
         test_masks (state_of (load_testing_images self fs)) =
           Some (replicate (length ids)
                   (zeros3 (IMG_SIZE self) (IMG_SIZE self) (NUM_CLASSES self) False)) \<and>
         ((\<forall>ident \<in> set ids.
             read_image self fs (PREPROCESSED_TEST_PATH self) ''test'' ident = Inr (fi ident)) \<longrightarrow>
          load_testing_images self fs =
            Returned (self\<lparr>test_images := Some (map fi ids),
                           test_masks := Some (replicate (length ids)
                             (zeros3 (IMG_SIZE self) (IMG_SIZE self) (NUM_CLASSES self) False))\<rparr>)) \<and>
         (0 < IMG_SIZE self \<longrightarrow>
          (\<forall>ident \<in> set ids.
             imread fs (PREPROCESSED_TEST_PATH self @ ''images/'' @ ident) = Some (Array3 (img ident)) \<and>
             is_array3 (IMG_SIZE self, IMG_SIZE self, ci ident) (img ident) \<and>
             IMG_CHANNELS self \<le> ci ident) \<longrightarrow>
          load_testing_images self fs =
            Returned (self\<lparr>test_images :=
                             Some (map (\<lambda>ident. map (map (take (IMG_CHANNELS self))) (img ident)) ids),
                           test_masks := Some (replicate (length ids)
                             (zeros3 (IMG_SIZE self) (IMG_SIZE self) (NUM_CLASSES self) False))\<rparr>)) \<and>
         (\<forall>self'. load_testing_images self fs = Returned self' \<longrightarrow>
            (\<exists>images. test_images self' = Some images \<and> length images = length ids \<and>
               (\<forall>n<length ids.
                  read_image self fs (PREPROCESSED_TEST_PATH self) ''test'' (ids ! n) =
                    Inr (images ! n))))"
proof (intro conjI allI impI)
  let ?path = "PREPROCESSED_TEST_PATH self"
  let ?zi = "replicate (length ids) (zeros3 (IMG_SIZE self) (IMG_SIZE self) (IMG_CHANNELS self) (0::uint8))"
  let ?zm = "replicate (length ids) (zeros3 (IMG_SIZE self) (IMG_SIZE self) (NUM_CLASSES self) False)"
  let ?run = "load_loop self fs ?path ''test'' False (enumerate 0 ids) (?zi, ?zm)"
  have arrays: "load_arrays self fs ?path ''test'' (IS_TEST_DATA_LABELED self) = Inr ?run"
    using assms(1,2) by (simp add: load_arrays_def)
  have "load_arrays self fs' ?path ''test'' (IS_TEST_DATA_LABELED self) =
          Inr (load_loop self fs' ?path ''test'' False (enumerate 0 ids) (?zi, ?zm))"
    using assms(1,3) by (simp add: load_arrays_def)
  then have "load_arrays self fs' ?path ''test'' (IS_TEST_DATA_LABELED self) =
          load_arrays self fs ?path ''test'' (IS_TEST_DATA_LABELED self)"
    using load_loop_unlabeled_same_images [OF assms(4)] arrays by simp
  then show "load_testing_images self fs' = load_testing_images self fs"
    by (simp add: load_testing_images_def)
  have masks: "snd (state_of ?run) = ?zm"
    by (rule load_loop_unlabeled_masks)
  show "test_masks (state_of (load_testing_images self fs)) = Some ?zm"
  proof (cases ?run)
    case (Returned a)
    then show ?thesis using masks
      by (cases a) (simp add: load_testing_images_def arrays)
  next
    case (Raised e a)
    then show ?thesis using masks
      by (cases a) (simp add: load_testing_images_def arrays)
  qed
  have returns: "load_testing_images self fs =
                   Returned (self\<lparr>test_images := Some (map f ids), test_masks := Some ?zm\<rparr>)"
    if "\<forall>ident \<in> set ids. read_image self fs ?path ''test'' ident = Inr (f ident)" for f
  proof -
    have "load_arrays self fs ?path ''test'' False = Inr (Returned (map f ids, ?zm))"
      using load_arrays_returns [OF assms(2) that, of False] by simp
    then show ?thesis
      using assms(1) by (simp add: load_testing_images_def)
  qed
  {
    assume "\<forall>ident \<in> set ids. read_image self fs ?path ''test'' ident = Inr (fi ident)"
    then show "load_testing_images self fs =
                 Returned (self\<lparr>test_images := Some (map fi ids), test_masks := Some ?zm\<rparr>)"
      by (rule returns)
  }
  {
    assume S: "0 < IMG_SIZE self"
      and files: "\<forall>ident \<in> set ids.
             imread fs (?path @ ''images/'' @ ident) = Some (Array3 (img ident)) \<and>
             is_array3 (IMG_SIZE self, IMG_SIZE self, ci ident) (img ident) \<and>
             IMG_CHANNELS self \<le> ci ident"
    have "\<forall>ident \<in> set ids. read_image self fs ?path ''test'' ident =
            Inr (map (map (take (IMG_CHANNELS self))) (img ident))"
    proof
      fix ident assume "ident \<in> set ids"
      with files have "imread fs (?path @ ''images/'' @ ident) = Some (Array3 (img ident))"
        "is_array3 (IMG_SIZE self, IMG_SIZE self, ci ident) (img ident)"
        "IMG_CHANNELS self \<le> ci ident"
        by blast+
      then show "read_image self fs ?path ''test'' ident =
                   Inr (map (map (take (IMG_CHANNELS self))) (img ident))"
        using S by (rule read_image_wide)
    qed
    then show "load_testing_images self fs =
            Returned (self\<lparr>test_images :=
                             Some (map (\<lambda>ident. map (map (take (IMG_CHANNELS self))) (img ident)) ids),
                           test_masks := Some ?zm\<rparr>)"
      by (rule returns)
  }
  fix self' assume ret: "load_testing_images self fs = Returned self'"
  then obtain images masks' where run: "?run = Returned (images, masks')"
    and self': "self' = self\<lparr>test_images := Some images, test_masks := Some masks'\<rparr>"
    by (auto simp: load_testing_images_def arrays split: outcome.splits)
  let ?fi = "\<lambda>ident. projr (read_image self fs ?path ''test'' ident)"
  have reads: "\<forall>ident \<in> set ids. read_image self fs ?path ''test'' ident = Inr (?fi ident)"
  proof
    fix ident assume "ident \<in> set ids"
    then obtain n where "n < length ids" "ids ! n = ident"
      by (auto simp: in_set_conv_nth)
    then have "(n, ident) \<in> set (enumerate 0 ids)"
      by (simp add: in_set_enumerate_eq)
    from load_loop_Returned_image [OF run this]
    show "read_image self fs ?path ''test'' ident = Inr (?fi ident)" by auto
  qed
  have "load_arrays self fs ?path ''test'' False = Inr (Returned (map ?fi ids, ?zm))"
    using load_arrays_returns [OF assms(2) reads, of False] by simp
  then have "images = map ?fi ids"
    using arrays run assms(1) by simp
  then show "\<exists>images. test_images self' = Some images \<and> length images = length ids \<and>
               (\<forall>n<length ids.
                  read_image self fs ?path ''test'' (ids ! n) = Inr (images ! n))"
    using reads self' by simp
qed

theorem load_testing_images_unlabeled_witness:
  "\<not> IS_TEST_DATA_LABELED demo \<and>
   load_testing_images demo
       (two_test_images [(''test/masks/a.png'', Array3 demo_mask),
                         (''test/masks/b.png'', Array2 [[0, 1], [1, 0]])]) =
     load_testing_images demo (two_test_images []) \<and>
   test_masks (state_of (load_testing_images demo (two_test_images []))) =
     Some [zeros3 2 2 3 False, zeros3 2 2 3 False] \<and>
   load_testing_images demo (two_test_images []) =
     Returned (demo\<lparr>test_images := Some [[[[1,2,3],[4,5,6]],[[7,8,9],[10,11,12]]],
                                          [[[0,0,0],[255,0,0]],[[0,255,0],[0,0,0]]]],
                    test_masks := Some [zeros3 2 2 3 False, zeros3 2 2 3 False]\<rparr>)"
proof -
  let ?fs = "two_test_images []"
  let ?fs' = "two_test_images [(''test/masks/a.png'', Array3 demo_mask),
                               (''test/masks/b.png'', Array2 [[0, 1], [1, 0]])]"
  let ?fi = "\<lambda>ident. if ident = ''a.png'' then [[[1,2,3],[4,5,6]],[[7,8,9],[10,11,12::uint8]]]
                      else [[[0,0,0],[255,0,0]],[[0,255,0],[0,0,0]]]"
  have 1: "\<not> IS_TEST_DATA_LABELED demo"
    by (simp add: demo_def)
  have 2: "listdir ?fs (PREPROCESSED_TEST_PATH demo @ ''images/'') = Some [''a.png'', ''b.png'']"
    by (simp add: demo_def two_test_images_def disk_def)
  have 3: "listdir ?fs' (PREPROCESSED_TEST_PATH demo @ ''images/'') = Some [''a.png'', ''b.png'']"
    by (simp add: demo_def two_test_images_def disk_def)
  have 4: "\<forall>ident. imread ?fs' (PREPROCESSED_TEST_PATH demo @ ''images/'' @ ident) =
                 imread ?fs (PREPROCESSED_TEST_PATH demo @ ''images/'' @ ident)"
    by (simp add: demo_def two_test_images_def disk_def)
  have a: "read_image demo ?fs ''test/'' ''test'' ''a.png'' = Inr (?fi ''a.png'')"
    by code_simp
  have b: "read_image demo ?fs ''test/'' ''test'' ''b.png'' = Inr (?fi ''b.png'')"
    by code_simp
  have path: "PREPROCESSED_TEST_PATH demo = ''test/''"
    by (simp add: demo_def)
  have 5: "\<forall>ident \<in> set [''a.png'', ''b.png''].
             read_image demo ?fs (PREPROCESSED_TEST_PATH demo) ''test'' ident = Inr (?fi ident)"
    unfolding path using a b by simp
  have sizes: "IMG_SIZE demo = 2" "NUM_CLASSES demo = 3"
    by (simp_all add: demo_def NUM_CLASSES_def)
  note inst = load_testing_images_unlabeled [OF 1 2 3 4, of ?fi]
  have same: "load_testing_images demo ?fs' = load_testing_images demo ?fs"
    using inst by (rule conjunct1)
  have "test_masks (state_of (load_testing_images demo ?fs)) =
          Some (replicate (length [''a.png'', ''b.png''])
                  (zeros3 (IMG_SIZE demo) (IMG_SIZE demo) (NUM_CLASSES demo) False))"
    using inst by blast
  then have zero: "test_masks (state_of (load_testing_images demo ?fs)) =
          Some [zeros3 2 2 3 False, zeros3 2 2 3 False]"
    by (simp add: sizes)
  have "load_testing_images demo ?fs =
          Returned (demo\<lparr>test_images := Some (map ?fi [''a.png'', ''b.png'']),
             test_masks := Some (replicate (length [''a.png'', ''b.png''])
                  (zeros3 (IMG_SIZE demo) (IMG_SIZE demo) (NUM_CLASSES demo) False))\<rparr>)"
    using inst 5 by blast
  then have ret: "load_testing_images demo ?fs =
     Returned (demo\<lparr>test_images := Some [[[[1,2,3],[4,5,6]],[[7,8,9],[10,11,12]]],
                                          [[[0,0,0],[255,0,0]],[[0,255,0],[0,0,0]]]],
                    test_masks := Some [zeros3 2 2 3 False, zeros3 2 2 3 False]\<rparr>)"
    by (simp add: sizes)
  show ?thesis
    using 1 same zero ret by blast
qed

lemma load_split_arrays:
  "load_split sp self fs =
     (case load_arrays self fs (split_path sp self) (split_word sp) (reads_masks sp self) of
        Inl e \<Rightarrow> Raised e self
      | Inr (Returned (images, masks)) \<Rightarrow> Returned (with_arrays sp self images masks)
      | Inr (Raised e (images, masks)) \<Rightarrow> Raised e (with_arrays sp self images masks))"
  by (cases sp)
     (auto simp: load_training_images_def load_testing_images_def split: sum.splits outcome.splits)

lemma replicate_update_0:
  "0 < n \<Longrightarrow> (replicate n z)[0 := v] = v # replicate (n - Suc 0) z"
  by (cases n) simp_all

lemma load_arrays_raises_image:
  assumes "listdir fs (path @ ''images/'') = Some ids"
    and "k < length ids"
    and "\<forall>j<k. read_image self fs path word (ids ! j) = Inr (fi (ids ! j))"
    and "labeled \<longrightarrow> (\<forall>j<k. read_mask self fs path (ids ! j) = Inr (fm (ids ! j)))"
    and "read_image self fs path word (ids ! k) = Inl e"
  shows "load_arrays self fs path word labeled =
           Inr (Raised e
             (map fi (take k ids) @
                replicate (length ids - k)
                  (zeros3 (IMG_SIZE self) (IMG_SIZE self) (IMG_CHANNELS self) 0),
              (if labeled then map fm (take k ids)
               else replicate k (zeros3 (IMG_SIZE self) (IMG_SIZE self) (NUM_CLASSES self) False)) @
                replicate (length ids - k)
                  (zeros3 (IMG_SIZE self) (IMG_SIZE self) (NUM_CLASSES self) False)))"
proof -
  let ?zi = "zeros3 (IMG_SIZE self) (IMG_SIZE self) (IMG_CHANNELS self) (0::uint8)"
  let ?zm = "zeros3 (IMG_SIZE self) (IMG_SIZE self) (NUM_CLASSES self) False"
  let ?A = "map fi (take k ids) @ drop k (replicate (length ids) ?zi)"
  let ?B = "if labeled then map fm (take k ids) @ drop k (replicate (length ids) ?zm)
            else replicate (length ids) ?zm"
  have "load_loop self fs path word labeled (enumerate 0 ids)
          (replicate (length ids) ?zi, replicate (length ids) ?zm) =
        load_loop self fs path word labeled
          ((k, ids ! k) # enumerate (Suc k) (drop (Suc k) ids)) (?A, ?B)"
    using assms(2,3,4) by (rule load_loop_raises_at) simp_all
  also have "\<dots> = Raised e (?A, ?B)"
    by (simp add: assms(5))
  finally have run: "load_arrays self fs path word labeled = Inr (Raised e (?A, ?B))"
    by (simp add: load_arrays_def assms(1))
  have A: "?A = map fi (take k ids) @ replicate (length ids - k) ?zi"
    by simp
  have "replicate (length ids) ?zm = replicate k ?zm @ replicate (length ids - k) ?zm"
    using assms(2) by (simp add: replicate_add [symmetric])
  then have B: "?B = (if labeled then map fm (take k ids) else replicate k ?zm) @
                  replicate (length ids - k) ?zm"
    by simp
  show ?thesis
    unfolding run A B ..
qed

lemma load_arrays_raises_mask:
  assumes "listdir fs (path @ ''images/'') = Some ids"
    and "k < length ids"
    and "\<forall>j<k. read_image self fs path word (ids ! j) = Inr (fi (ids ! j))"
    and "\<forall>j<k. read_mask self fs path (ids ! j) = Inr (fm (ids ! j))"
    and "read_image self fs path word (ids ! k) = Inr img"
    and "read_mask self fs path (ids ! k) = Inl e"
  shows "load_arrays self fs path word True =
           Inr (Raised e
             (map fi (take k ids) @ img #
                replicate (length ids - Suc k)
                  (zeros3 (IMG_SIZE self) (IMG_SIZE self) (IMG_CHANNELS self) 0),
              map fm (take k ids) @
                replicate (length ids - k)
                  (zeros3 (IMG_SIZE self) (IMG_SIZE self) (NUM_CLASSES self) False)))"
proof -
  let ?zi = "zeros3 (IMG_SIZE self) (IMG_SIZE self) (IMG_CHANNELS self) (0::uint8)"
  let ?zm = "zeros3 (IMG_SIZE self) (IMG_SIZE self) (NUM_CLASSES self) False"
  let ?A = "map fi (take k ids) @ drop k (replicate (length ids) ?zi)"
  let ?B = "if True then map fm (take k ids) @ drop k (replicate (length ids) ?zm)
            else replicate (length ids) ?zm"
  have masks: "True \<longrightarrow> (\<forall>j<k. read_mask self fs path (ids ! j) = Inr (fm (ids ! j)))"
    using assms(4) by simp
  have "load_loop self fs path word True (enumerate 0 ids)
          (replicate (length ids) ?zi, replicate (length ids) ?zm) =
        load_loop self fs path word True
          ((k, ids ! k) # enumerate (Suc k) (drop (Suc k) ids)) (?A, ?B)"
    using assms(2,3) masks by (rule load_loop_raises_at) simp_all
  also have "\<dots> = Raised e (?A[k := img], ?B)"
    by (simp add: assms(5,6))
  finally have run: "load_arrays self fs path word True = Inr (Raised e (?A[k := img], ?B))"
    by (simp add: load_arrays_def assms(1))
  have A: "?A[k := img] = map fi (take k ids) @ img # replicate (length ids - Suc k) ?zi"
    using assms(2) by (simp add: list_update_append replicate_update_0)
  have B: "?B = map fm (take k ids) @ replicate (length ids - k) ?zm"
    by simp
  show ?thesis
    unfolding run A B ..
qed

text \<open>
  Claim C10. The image check and the mask check of the loaders are not symmetric. In a
  split whose masks are read, let every listed image up to position k be a 3-D array of
  S by S pixels with at least IMG_CHANNELS channels, and every mask before position k one
  of exactly IMG_CHANNELS channels. Then no image raises, and each is stored cut down to
  its first IMG_CHANNELS channels. When k is the end of the listing the load returns;
  when the mask at position k has more than IMG_CHANNELS channels it is not cut down: the
  load raises the invalid-channel error that names this mask, after it has stored the
  image of the same sample.
\<close>

theorem images_truncated_masks_rejected:
  fixes img msk :: "string \<Rightarrow> uint8 array3" and ci :: "string \<Rightarrow> nat"
  assumes "0 < IMG_SIZE self"
    and "\<forall>cl \<in> set (CLASSES self). length (fst cl) = IMG_CHANNELS self"
    and "listdir fs (split_path sp self @ ''images/'') = Some ids"
    and "reads_masks sp self"
    and "k \<le> length ids"
    and "\<forall>j<length ids. j \<le> k \<longrightarrow>
           imread fs (split_path sp self @ ''images/'' @ ids ! j) = Some (Array3 (img (ids ! j))) \<and>
           is_array3 (IMG_SIZE self, IMG_SIZE self, ci (ids ! j)) (img (ids ! j)) \<and>
           IMG_CHANNELS self \<le> ci (ids ! j)"
    and "\<forall>j<k.
           imread fs (split_path sp self @ ''masks/'' @ ids ! j) = Some (Array3 (msk (ids ! j))) \<and>
           is_array3 (IMG_SIZE self, IMG_SIZE self, IMG_CHANNELS self) (msk (ids ! j))"
    and "k < length ids \<longrightarrow>
           imread fs (split_path sp self @ ''masks/'' @ ids ! k) = Some (Array3 (msk (ids ! k))) \<and>
           is_array3 (IMG_SIZE self, IMG_SIZE self, cm) (msk (ids ! k)) \<and>
           IMG_CHANNELS self < cm"
  shows "load_split sp self fs =
     (if k = length ids then
        Returned (with_arrays sp self
          (map (\<lambda>ident. map (map (take (IMG_CHANNELS self))) (img ident)) ids)
          (map (\<lambda>ident. map (map (\<lambda>px. map (\<lambda>cl. map uint px = fst cl) (CLASSES self))) (msk ident))
             ids))
      else
        Raised (BaseException (''Invalid channel number in mask image '' @ ids ! k))
          (with_arrays sp self
            (map (\<lambda>ident. map (map (take (IMG_CHANNELS self))) (img ident)) (take k ids) @
             map (map (take (IMG_CHANNELS self))) (img (ids ! k)) #
             replicate (length ids - Suc k)
               (zeros3 (IMG_SIZE self) (IMG_SIZE self) (IMG_CHANNELS self) 0))
            (map (\<lambda>ident. map (map (\<lambda>px. map (\<lambda>cl. map uint px = fst cl) (CLASSES self))) (msk ident))
               (take k ids) @
             replicate (length ids - k)
               (zeros3 (IMG_SIZE self) (IMG_SIZE self) (NUM_CLASSES self) False))))"
proof -
  let ?path = "split_path sp self" and ?word = "split_word sp"
  let ?fi = "\<lambda>ident. map (map (take (IMG_CHANNELS self))) (img ident)"
  let ?fm = "\<lambda>ident. map (map (\<lambda>px. map (\<lambda>cl. map uint px = fst cl) (CLASSES self))) (msk ident)"
  have image: "read_image self fs ?path ?word (ids ! j) = Inr (?fi (ids ! j))"
    if "j < length ids" "j \<le> k" for j
  proof -
    have "imread fs (?path @ ''images/'' @ ids ! j) = Some (Array3 (img (ids ! j)))"
      "is_array3 (IMG_SIZE self, IMG_SIZE self, ci (ids ! j)) (img (ids ! j))"
      "IMG_CHANNELS self \<le> ci (ids ! j)"
      using assms(6) that by blast+
    then show ?thesis using assms(1) by (rule read_image_wide)
  qed
  have mask: "read_mask self fs ?path (ids ! j) = Inr (?fm (ids ! j))" if "j < k" for j
  proof -
    have "imread fs (?path @ ''masks/'' @ ids ! j) = Some (Array3 (msk (ids ! j)))"
      "is_array3 (IMG_SIZE self, IMG_SIZE self, IMG_CHANNELS self) (msk (ids ! j))"
      using assms(7) that by blast+
    then show ?thesis using assms(1,2) by (rule read_mask_array)
  qed
  have labeled: "reads_masks sp self = True"
    using assms(4) by simp
  show ?thesis
  proof (cases "k = length ids")
    case True
    have 1: "\<forall>ident \<in> set ids. read_image self fs ?path ?word ident = Inr (?fi ident)"
      using image True by (auto simp: in_set_conv_nth)
    have 2: "True \<longrightarrow> (\<forall>ident \<in> set ids. read_mask self fs ?path ident = Inr (?fm ident))"
      using mask True by (auto simp: in_set_conv_nth)
    show ?thesis
      using load_arrays_returns [OF assms(3) 1 2] True
      by (simp add: load_split_arrays labeled)
  next
    case False
    then have k: "k < length ids" using assms(5) by simp
    have 1: "\<forall>j<k. read_image self fs ?path ?word (ids ! j) = Inr (?fi (ids ! j))"
      using image k by simp
    have 2: "\<forall>j<k. read_mask self fs ?path (ids ! j) = Inr (?fm (ids ! j))"
      using mask by simp
    have 3: "read_image self fs ?path ?word (ids ! k) = Inr (?fi (ids ! k))"
      using image k by simp
    have m: "imread fs (?path @ ''masks/'' @ ids ! k) = Some (Array3 (msk (ids ! k)))"
      "is_array3 (IMG_SIZE self, IMG_SIZE self, cm) (msk (ids ! k))" "cm \<noteq> IMG_CHANNELS self"
      using assms(8) k by blast+
    have 4: "read_mask self fs ?path (ids ! k) =
               Inl (BaseException (''Invalid channel number in mask image '' @ ids ! k))"
      using m(1,2) assms(1) assms(1) m(3) by (rule read_mask_channels)
    show ?thesis
      using load_arrays_raises_mask [OF assms(3) k 1 2 3 4] False
      by (simp add: load_split_arrays labeled)
  qed
qed

theorem images_truncated_masks_rejected_witness:
  "load_training_images demo
     (disk [''a.png''] [(''train/images/a.png'', Array3 wide_image),
                        (''train/masks/a.png'', Array3 demo_mask)]) =
     Returned (demo\<lparr>train_images := Some [[[[1,2,3],[4,5,6]],[[7,8,9],[10,11,12]]]],
                    train_masks := Some [[[[True,False,False],[False,True,False]],
                                          [[False,False,True],[True,False,False]]]]\<rparr>) \<and>
   load_testing_images demo_labeled
     (disk [''a.png''] [(''test/images/a.png'', Array3 wide_image),
                        (''test/masks/a.png'', Array3 wide_image)]) =
     Raised (BaseException ''Invalid channel number in mask image a.png'')
       (demo_labeled\<lparr>test_images := Some [[[[1,2,3],[4,5,6]],[[7,8,9],[10,11,12]]]],
                     test_masks := Some [zeros3 2 2 3 False]\<rparr>)"
proof -
  let ?d1 = "disk [''a.png''] [(''train/images/a.png'', Array3 wide_image),
                               (''train/masks/a.png'', Array3 demo_mask)]"
  let ?d2 = "disk [''a.png''] [(''test/images/a.png'', Array3 wide_image),
                               (''test/masks/a.png'', Array3 wide_image)]"
  have a: "load_split Train demo ?d1 =
     (if (1::nat) = length [''a.png''] then
        Returned (with_arrays Train demo
          (map (\<lambda>ident. map (map (take (IMG_CHANNELS demo))) wide_image) [''a.png''])
          (map (\<lambda>ident. map (map (\<lambda>px. map (\<lambda>cl. map uint px = fst cl) (CLASSES demo))) demo_mask)
             [''a.png'']))
      else
        Raised (BaseException (''Invalid channel number in mask image '' @ [''a.png''] ! 1))
          (with_arrays Train demo
            (map (\<lambda>ident. map (map (take (IMG_CHANNELS demo))) wide_image) (take 1 [''a.png'']) @
             map (map (take (IMG_CHANNELS demo))) wide_image #
             replicate (length [''a.png''] - Suc 1)
               (zeros3 (IMG_SIZE demo) (IMG_SIZE demo) (IMG_CHANNELS demo) 0))
            (map (\<lambda>ident. map (map (\<lambda>px. map (\<lambda>cl. map uint px = fst cl) (CLASSES demo))) demo_mask)
               (take 1 [''a.png'']) @
             replicate (length [''a.png''] - 1)
               (zeros3 (IMG_SIZE demo) (IMG_SIZE demo) (NUM_CLASSES demo) False))))"
    by (rule images_truncated_masks_rejected [where ci = "\<lambda>_. 4" and cm = 0])
       (simp_all add: demo_def disk_def wide_image_def demo_mask_def is_array3_def)
  have b: "load_split Test demo_labeled ?d2 =
     (if (0::nat) = length [''a.png''] then
        Returned (with_arrays Test demo_labeled
          (map (\<lambda>ident. map (map (take (IMG_CHANNELS demo_labeled))) wide_image) [''a.png''])
          (map (\<lambda>ident. map (map (\<lambda>px. map (\<lambda>cl. map uint px = fst cl) (CLASSES demo_labeled))) wide_image)
             [''a.png'']))
      else
        Raised (BaseException (''Invalid channel number in mask image '' @ [''a.png''] ! 0))
          (with_arrays Test demo_labeled
            (map (\<lambda>ident. map (map (take (IMG_CHANNELS demo_labeled))) wide_image) (take 0 [''a.png'']) @
             map (map (take (IMG_CHANNELS demo_labeled))) wide_image #
             replicate (length [''a.png''] - Suc 0)
               (zeros3 (IMG_SIZE demo_labeled) (IMG_SIZE demo_labeled) (IMG_CHANNELS demo_labeled) 0))
            (map (\<lambda>ident. map (map (\<lambda>px. map (\<lambda>cl. map uint px = fst cl) (CLASSES demo_labeled))) wide_image)
               (take 0 [''a.png'']) @
             replicate (length [''a.png''] - 0)
               (zeros3 (IMG_SIZE demo_labeled) (IMG_SIZE demo_labeled) (NUM_CLASSES demo_labeled) False))))"
    by (rule images_truncated_masks_rejected [where ci = "\<lambda>_. 4" and cm = 4])
       (simp_all add: demo_labeled_def demo_def disk_def wide_image_def is_array3_def)
  have sizes: "IMG_SIZE demo = 2" "IMG_CHANNELS demo = 3" "NUM_CLASSES demo = 3"
    "IMG_SIZE demo_labeled = 2" "IMG_CHANNELS demo_labeled = 3" "NUM_CLASSES demo_labeled = 3"
    "CLASSES demo = [([0,0,0], ''background''), ([255,0,0], ''first''), ([0,255,0], ''second'')]"
    by (simp_all add: demo_labeled_def demo_def NUM_CLASSES_def)
  have a': "load_training_images demo ?d1 =
     Returned (demo\<lparr>train_images := Some [[[[1,2,3],[4,5,6]],[[7,8,9],[10,11,12]]]],
                    train_masks := Some [[[[True,False,False],[False,True,False]],
                                          [[False,False,True],[True,False,False]]]]\<rparr>)"
    using a by (simp add: sizes wide_image_def demo_mask_def)
  have b': "load_testing_images demo_labeled ?d2 =
     Raised (BaseException ''Invalid channel number in mask image a.png'')
       (demo_labeled\<lparr>test_images := Some [[[[1,2,3],[4,5,6]],[[7,8,9],[10,11,12]]]],
                     test_masks := Some [zeros3 2 2 3 False]\<rparr>)"
    using b by (simp add: sizes wide_image_def)
  show ?thesis using a' b' by (rule conjI)
qed

lemma image_too_narrow_D:
  "image_too_narrow C r \<Longrightarrow>
     \<exists>a h w c. r = Some (Array3 a) \<and> is_array3 (h, w, c) a \<and> 0 < h \<and> 0 < w \<and> c < C"
  by (auto simp: image_too_narrow_def split: option.splits raster.splits prod.splits)

lemma mask_channels_differ_D:
  "mask_channels_differ C r \<Longrightarrow>
     (\<exists>m. r = Some (Array2 m)) \<or>
     (\<exists>m h w c. r = Some (Array3 m) \<and> is_array3 (h, w, c) m \<and> 0 < h \<and> 0 < w \<and> c \<noteq> C)"
  by (auto simp: mask_channels_differ_def split: option.splits raster.splits prod.splits)

lemma read_image_too_narrow:
  assumes "image_too_narrow (IMG_CHANNELS self) (imread fs (path @ ''images/'' @ ident))"
  shows "read_image self fs path word ident =
           Inl (BaseException (''Invalid channel number in '' @ word @ '' image '' @ ident))"
proof -
  from image_too_narrow_D [OF assms] obtain a h w c
    where "imread fs (path @ ''images/'' @ ident) = Some (Array3 a)"
      and "is_array3 (h, w, c) a" and "0 < h" and "0 < w" and "c < IMG_CHANNELS self"
    by blast
  then show ?thesis by (rule read_image_narrow)
qed

lemma read_mask_channels_differ:
  assumes "mask_channels_differ (IMG_CHANNELS self) (imread fs (path @ ''masks/'' @ ident))"
  shows "read_mask self fs path ident =
           Inl (BaseException (''Invalid channel number in mask image '' @ ident))"
  using mask_channels_differ_D [OF assms]
proof (elim disjE exE conjE)
  fix m assume "imread fs (path @ ''masks/'' @ ident) = Some (Array2 m)"
  then show ?thesis by (rule read_mask_2d)
next
  fix m h w c
  assume "imread fs (path @ ''masks/'' @ ident) = Some (Array3 m)"
    and "is_array3 (h, w, c) m" and "0 < h" and "0 < w" and "c \<noteq> IMG_CHANNELS self"
  then show ?thesis by (rule read_mask_channels)
qed

text \<open>
  Claim C3, as the code has it. Let every sample before position k of the listing load.
  When the image at position k is a 3-D array with fewer than IMG_CHANNELS channels, the
  load raises the invalid-channel error that names the image. When the image at position
  k loads and the split reads its masks, and the mask at position k is a 2-D array or has
  a channel count other than IMG_CHANNELS, the load raises the invalid-channel error that
  names the mask. In both cases nothing is rolled back: the samples before position k
  stay in the arrays (and the image at position k, when the mask was at fault), and the
  slots after it stay zero-filled.
\<close>

theorem load_raises_invalid_channel:
  assumes "listdir fs (split_path sp self @ ''images/'') = Some ids"
    and "k < length ids"
    and "\<forall>j<k. read_image self fs (split_path sp self) (split_word sp) (ids ! j) = Inr (fi (ids ! j))"
    and "reads_masks sp self \<longrightarrow>
           (\<forall>j<k. read_mask self fs (split_path sp self) (ids ! j) = Inr (fm (ids ! j)))"
  shows "(image_too_narrow (IMG_CHANNELS self)
            (imread fs (split_path sp self @ ''images/'' @ ids ! k)) \<longrightarrow>
          load_split sp self fs =
            Raised (BaseException
                      (''Invalid channel number in '' @ split_word sp @ '' image '' @ ids ! k))
              (with_arrays sp self
                 (map fi (take k ids) @
                  replicate (length ids - k)
                    (zeros3 (IMG_SIZE self) (IMG_SIZE self) (IMG_CHANNELS self) 0))
                 ((if reads_masks sp self then map fm (take k ids)
                   else replicate k
                          (zeros3 (IMG_SIZE self) (IMG_SIZE self) (NUM_CLASSES self) False)) @
                  replicate (length ids - k)
                    (zeros3 (IMG_SIZE self) (IMG_SIZE self) (NUM_CLASSES self) False)))) \<and>
         (reads_masks sp self \<longrightarrow>
          read_image self fs (split_path sp self) (split_word sp) (ids ! k) = Inr img \<longrightarrow>
          mask_channels_differ (IMG_CHANNELS self)
            (imread fs (split_path sp self @ ''masks/'' @ ids ! k)) \<longrightarrow>
          load_split sp self fs =
            Raised (BaseException (''Invalid channel number in mask image '' @ ids ! k))
              (with_arrays sp self
                 (map fi (take k ids) @ img #
                  replicate (length ids - Suc k)
                    (zeros3 (IMG_SIZE self) (IMG_SIZE self) (IMG_CHANNELS self) 0))
                 (map fm (take k ids) @
                  replicate (length ids - k)
                    (zeros3 (IMG_SIZE self) (IMG_SIZE self) (NUM_CLASSES self) False))))"
proof (intro conjI impI)
  let ?path = "split_path sp self" and ?word = "split_word sp"
  assume "image_too_narrow (IMG_CHANNELS self) (imread fs (?path @ ''images/'' @ ids ! k))"
  then have "read_image self fs ?path ?word (ids ! k) =
               Inl (BaseException (''Invalid channel number in '' @ ?word @ '' image '' @ ids ! k))"
    by (rule read_image_too_narrow)
  from load_arrays_raises_image [OF assms(1,2,3,4) this]
  show "load_split sp self fs =
            Raised (BaseException (''Invalid channel number in '' @ ?word @ '' image '' @ ids ! k))
              (with_arrays sp self
                 (map fi (take k ids) @
                  replicate (length ids - k)
                    (zeros3 (IMG_SIZE self) (IMG_SIZE self) (IMG_CHANNELS self) 0))
                 ((if reads_masks sp self then map fm (take k ids)
                   else replicate k
                          (zeros3 (IMG_SIZE self) (IMG_SIZE self) (NUM_CLASSES self) False)) @
                  replicate (length ids - k)
                    (zeros3 (IMG_SIZE self) (IMG_SIZE self) (NUM_CLASSES self) False)))"
    by (simp add: load_split_arrays)
next
  let ?path = "split_path sp self" and ?word = "split_word sp"
  assume labeled: "reads_masks sp self"
    and image: "read_image self fs ?path ?word (ids ! k) = Inr img"
    and "mask_channels_differ (IMG_CHANNELS self) (imread fs (?path @ ''masks/'' @ ids ! k))"
  then have mask: "read_mask self fs ?path (ids ! k) =
               Inl (BaseException (''Invalid channel number in mask image '' @ ids ! k))"
    by (intro read_mask_channels_differ)
  have masks: "\<forall>j<k. read_mask self fs ?path (ids ! j) = Inr (fm (ids ! j))"
    using assms(4) labeled by simp
  from load_arrays_raises_mask [OF assms(1,2,3) masks image mask] labeled
  show "load_split sp self fs =
            Raised (BaseException (''Invalid channel number in mask image '' @ ids ! k))
              (with_arrays sp self
                 (map fi (take k ids) @ img #
                  replicate (length ids - Suc k)
                    (zeros3 (IMG_SIZE self) (IMG_SIZE self) (IMG_CHANNELS self) 0))
                 (map fm (take k ids) @
                  replicate (length ids - k)
                    (zeros3 (IMG_SIZE self) (IMG_SIZE self) (NUM_CLASSES self) False)))"
    by (simp add: load_split_arrays)
qed

theorem load_raises_invalid_channel_witness:
  "load_training_images demo two_files =
     Raised (BaseException ''Invalid channel number in training image b.png'')
       (demo\<lparr>train_images := Some [[[[1,2,3],[4,5,6]],[[7,8,9],[10,11,12]]], zeros3 2 2 3 0],
              train_masks := Some [[[[True,False,False],[False,True,False]],
                                    [[False,False,True],[True,False,False]]],
                                   zeros3 2 2 3 False]\<rparr>) \<and>
   load_testing_images demo_labeled flat_mask =
     Raised (BaseException ''Invalid channel number in mask image a.png'')
       (demo_labeled\<lparr>test_images := Some [[[[1,2,3],[4,5,6]],[[7,8,9],[10,11,12]]]],
                      test_masks := Some [zeros3 2 2 3 False]\<rparr>)"
proof -
  let ?fi = "\<lambda>_::string. [[[1,2,3],[4,5,6]],[[7,8,9],[10,11,12::uint8]]]"
  let ?fm = "\<lambda>_::string. [[[True,False,False],[False,True,False]],
                              [[False,False,True],[True,False,False]]]"
  have sizes: "IMG_SIZE demo = 2" "IMG_CHANNELS demo = 3" "NUM_CLASSES demo = 3"
    "IMG_SIZE demo_labeled = 2" "IMG_CHANNELS demo_labeled = 3" "NUM_CLASSES demo_labeled = 3"
    by (simp_all add: demo_labeled_def demo_def NUM_CLASSES_def)
  have l1: "listdir two_files (split_path Train demo @ ''images/'') = Some [''a.png'', ''b.png'']"
    by (simp add: two_files_def disk_def demo_def)
  have k1: "(1::nat) < length [''a.png'', ''b.png'']" by simp
  have i1: "\<forall>j<1::nat. read_image demo two_files (split_path Train demo) (split_word Train)
              ([''a.png'', ''b.png''] ! j) = Inr (?fi ([''a.png'', ''b.png''] ! j))"
  proof -
    have "read_image demo two_files ''train/'' ''training'' ''a.png'' = Inr (?fi ''a.png'')"
      by code_simp
    then show ?thesis by (simp add: demo_def)
  qed
  have m1: "reads_masks Train demo \<longrightarrow>
              (\<forall>j<1::nat. read_mask demo two_files (split_path Train demo)
                 ([''a.png'', ''b.png''] ! j) = Inr (?fm ([''a.png'', ''b.png''] ! j)))"
  proof -
    have "read_mask demo two_files ''train/'' ''a.png'' = Inr (?fm ''a.png'')"
      by code_simp
    then show ?thesis by (simp add: demo_def)
  qed
  have n1: "image_too_narrow (IMG_CHANNELS demo)
              (imread two_files (split_path Train demo @ ''images/'' @ [''a.png'', ''b.png''] ! 1))"
    by (simp add: image_too_narrow_def two_files_def disk_def demo_def narrow_image_def
          shape3_def is_array3_def)
  have a: "load_training_images demo two_files =
     Raised (BaseException ''Invalid channel number in training image b.png'')
       (demo\<lparr>train_images := Some [[[[1,2,3],[4,5,6]],[[7,8,9],[10,11,12]]], zeros3 2 2 3 0],
              train_masks := Some [[[[True,False,False],[False,True,False]],
                                    [[False,False,True],[True,False,False]]],
                                   zeros3 2 2 3 False]\<rparr>)"
    using load_raises_invalid_channel [OF l1 k1 i1 m1, THEN conjunct1, rule_format, OF n1]
    by (simp add: sizes)
  have l2: "listdir flat_mask (split_path Test demo_labeled @ ''images/'') = Some [''a.png'']"
    by (simp add: flat_mask_def disk_def demo_labeled_def demo_def)
  have k2: "(0::nat) < length [''a.png'']" by simp
  have i2: "\<forall>j<0::nat. read_image demo_labeled flat_mask (split_path Test demo_labeled)
              (split_word Test) ([''a.png''] ! j) = Inr (?fi ([''a.png''] ! j))"
    by simp
  have m2: "reads_masks Test demo_labeled \<longrightarrow>
              (\<forall>j<0::nat. read_mask demo_labeled flat_mask (split_path Test demo_labeled)
                 ([''a.png''] ! j) = Inr (?fm ([''a.png''] ! j)))"
    by simp
  have r2: "reads_masks Test demo_labeled"
    by (simp add: demo_labeled_def)
  have g2: "read_image demo_labeled flat_mask (split_path Test demo_labeled) (split_word Test)
              ([''a.png''] ! 0) = Inr [[[1,2,3],[4,5,6]],[[7,8,9],[10,11,12]]]"
  proof -
    have "read_image demo_labeled flat_mask ''test/'' ''test'' ''a.png'' =
            Inr [[[1,2,3],[4,5,6]],[[7,8,9],[10,11,12]]]"
      by code_simp
    then show ?thesis by (simp add: demo_labeled_def demo_def)
  qed
  have d2: "mask_channels_differ (IMG_CHANNELS demo_labeled)
              (imread flat_mask (split_path Test demo_labeled @ ''masks/'' @ [''a.png''] ! 0))"
    by (simp add: mask_channels_differ_def flat_mask_def disk_def demo_labeled_def demo_def)
  have b: "load_testing_images demo_labeled flat_mask =
     Raised (BaseException ''Invalid channel number in mask image a.png'')
       (demo_labeled\<lparr>test_images := Some [[[[1,2,3],[4,5,6]],[[7,8,9],[10,11,12]]]],
                      test_masks := Some [zeros3 2 2 3 False]\<rparr>)"
    using load_raises_invalid_channel [OF l2 k2 i2 m2, THEN conjunct2, rule_format, OF r2 g2 d2]
    by (simp add: sizes)
  show ?thesis using a b by (rule conjI)
qed

text \<open>
  Claim C3 as stated fails twice. An image of four channels under IMG_CHANNELS = 3 is
  loaded without any error, cut down to three channels. And when the second of two files
  raises the invalid-channel error, the first sample is in the arrays of the object: the
  load has not ended with zero samples loaded.
\<close>

theorem load_channel_mismatch_counterexample:
  "load_training_images demo one_wide_file =
     Returned (demo\<lparr>train_images := Some [[[[1,2,3],[4,5,6]],[[7,8,9],[10,11,12]]]],
                    train_masks := Some [[[[True,False,False],[False,True,False]],
                                          [[False,False,True],[True,False,False]]]]\<rparr>) \<and>
   load_training_images demo two_files =
     Raised (BaseException ''Invalid channel number in training image b.png'')
       (demo\<lparr>train_images := Some [[[[1,2,3],[4,5,6]],[[7,8,9],[10,11,12]]],
                                    [[[0,0,0],[0,0,0]],[[0,0,0],[0,0,0]]]],
              train_masks := Some [[[[True,False,False],[False,True,False]],
                                    [[False,False,True],[True,False,False]]],
                                   [[[False,False,False],[False,False,False]],
                                    [[False,False,False],[False,False,False]]]]\<rparr>)"
  by code_simp

subsection \<open>Training\<close>

lemma fit_model_calls_returned:
  "fit_model_calls self (map (\<lambda>(epochs, trained). (epochs, Inr trained)) calls) =
     Returned (self\<lparr>epochs_measured := epochs_measured self + sum_list (map fst calls)\<rparr>)"
proof (induction calls arbitrary: self)
  case Nil
  show ?case by simp
next
  case (Cons c calls)
  obtain epochs trained where c: "c = (epochs, trained)" by (cases c)
  show ?case
    by (simp add: c fit_model_def Cons.IH add.assoc)
qed

text \<open>
  Claim C9, as the code has it. Across repeated calls of \<open>fit_model\<close> that return, the
  counter \<open>epochs_measured\<close> is its initial value plus the sum of the \<open>epochs\<close>
  arguments, whatever number of epochs each training loop ran. So it agrees with the
  number of epochs actually trained over these calls exactly when the total of the
  epochs asked for equals the total of the epochs trained.
\<close>

theorem epochs_measured_counts_requested:
  "fit_model_calls self (map (\<lambda>(epochs, trained). (epochs, Inr trained)) calls) =
     Returned (self\<lparr>epochs_measured := epochs_measured self + sum_list (map fst calls)\<rparr>) \<and>
   (epochs_measured
      (state_of (fit_model_calls self (map (\<lambda>(epochs, trained). (epochs, Inr trained)) calls))) =
      epochs_measured self + int (sum_list (map snd calls))
    \<longleftrightarrow> sum_list (map fst calls) = int (sum_list (map snd calls)))"
  by (simp add: fit_model_calls_returned)

text \<open>
  Claim C9 as stated fails. With a validation loss that never improves after the first
  epoch, a call for 50 epochs trains 6 epochs and the counter says 50.
\<close>

theorem epochs_measured_counterexample:
  "keras_fit 50 plateau = Inr 6 \<and>
   fit_model demo 50 (keras_fit 50 plateau) = Returned (demo\<lparr>epochs_measured := 50\<rparr>)"
proof -
  have "epochs_trained 50 0 None 0 plateau = 6"
    by (simp add: plateau_def eval_nat_numeral)
  then have fit: "keras_fit 50 plateau = Inr 6"
    by (simp add: keras_fit_def)
  have "epochs_measured demo = 0" by (simp add: demo_def)
  then show ?thesis
    by (simp add: fit fit_model_def)
qed

subsection \<open>Metrics\<close>

lemma map2_same: "map2 f xs xs = map (\<lambda>x. f x x) xs"
  by (induction xs) simp_all

lemma foldr_fplus_Finite: "foldr fplus (map Finite rs) (Finite 0) = Finite (sum_list rs)"
  by (induction rs) simp_all

lemma mean_axis0_Finite:
  "rs \<noteq> [] \<Longrightarrow> mean_axis0 (map Finite rs) = Finite (sum_list rs / real (length rs))"
  by (simp add: mean_axis0_def foldr_fplus_Finite)

lemma times4_same_binary:
  assumes "\<forall>v \<in> set (entries4 y). v = 0 \<or> v = (1::real)"
  shows "times4 y y = y"
proof -
  have "map (map (map (map (\<lambda>v. v * v)))) y = map (map (map (map (\<lambda>v. v)))) y"
    using assms by (intro map_cong refl) (fastforce simp: entries4_def)
  then show ?thesis
    by (simp add: times4_def map2_same)
qed

lemma sum_axes123_nonneg:
  assumes "\<forall>v \<in> set (entries4 y). 0 \<le> (v::real)" and "t \<in> set (sum_axes123 y)"
  shows "0 \<le> t"
proof -
  obtain sample where s: "sample \<in> set y"
    and t: "t = sum_list (map (\<lambda>row. sum_list (map sum_list row)) sample)"
    using assms(2) by (auto simp: sum_axes123_def)
  have "0 \<le> sum_list px" if "row \<in> set sample" "px \<in> set row" for row px
    using assms(1) s that by (intro sum_list_nonneg) (fastforce simp: entries4_def)
  then have "0 \<le> sum_list (map sum_list row)" if "row \<in> set sample" for row
    using that by (intro sum_list_nonneg) auto
  then show ?thesis
    unfolding t by (intro sum_list_nonneg) auto
qed

lemma map2_map_left: "map2 f (map g xs) xs = map (\<lambda>x. f (g x) x) xs"
  by (induction xs) simp_all

lemma map2_map2_same: "map2 f xs (map2 g xs xs) = map (\<lambda>x. f x (g x x)) xs"
  by (induction xs) simp_all

lemma coefficients_identical:
  assumes "y \<noteq> []" and "\<forall>v \<in> set (entries4 y). v = 0 \<or> v = (1::real)"
    and "0 \<le> smooth" and "0 < smooth \<or> (\<forall>t \<in> set (sum_axes123 y). 0 < t)"
  shows "iou_coef y y smooth = Finite 1" and "dice_coef y y smooth = Finite 1"
proof -
  let ?T = "sum_axes123 y"
  have ne: "?T \<noteq> []" using assms(1) by (simp add: sum_axes123_def)
  have "\<forall>v \<in> set (entries4 y). 0 \<le> v" using assms(2) by fastforce
  then have nonneg: "0 \<le> t" if "t \<in> set ?T" for t
    using sum_axes123_nonneg [of y t] that by blast
  have pos: "0 < t + smooth" if "t \<in> set ?T" for t
    using nonneg [OF that] that assms(3,4) by fastforce
  have pos2: "0 < t + t + smooth" if "t \<in> set ?T" for t
    using nonneg [OF that] pos [OF that] by simp
  have mean1: "mean_axis0 (map (\<lambda>t. Finite 1) ?T) = Finite 1"
  proof -
    have "map (\<lambda>t. Finite 1) ?T = map Finite (map (\<lambda>t. 1) ?T)" by simp
    then have "mean_axis0 (map (\<lambda>t. Finite 1) ?T) =
                 Finite (sum_list (map (\<lambda>t. 1) ?T) / real (length (map (\<lambda>t. 1::real) ?T)))"
      using ne by (simp only: mean_axis0_Finite map_is_Nil_conv not_False_eq_True)
    also have "\<dots> = Finite 1"
      using ne by (simp add: sum_list_triv)
    finally show ?thesis .
  qed
  have inter: "sum_axes123 (times4 y y) = ?T"
    by (simp only: times4_same_binary [OF assms(2)])
  have union: "map2 (-) (map2 (+) ?T ?T) ?T = ?T"
    by (simp only: map2_same map2_map_left) simp
  have "map2 (\<lambda>i u. fdivide (Finite (i + smooth)) (Finite (u + smooth))) ?T ?T =
        map (\<lambda>t. fdivide (Finite (t + smooth)) (Finite (t + smooth))) ?T"
    by (rule map2_same)
  also have "\<dots> = map (\<lambda>t. Finite 1) ?T"
    using pos by (intro map_cong refl) fastforce
  finally have iou: "map2 (\<lambda>i u. fdivide (Finite (i + smooth)) (Finite (u + smooth))) ?T ?T =
        map (\<lambda>t. Finite 1) ?T" .
  show "iou_coef y y smooth = Finite 1"
    unfolding iou_coef_def Let_def inter union iou by (rule mean1)
  have "map2 (\<lambda>i u. fdivide (Finite (2 * i + smooth)) (Finite (u + smooth))) ?T (map2 (+) ?T ?T) =
        map (\<lambda>t. fdivide (Finite (2 * t + smooth)) (Finite (t + t + smooth))) ?T"
    by (rule map2_map2_same)
  also have "\<dots> = map (\<lambda>t. Finite 1) ?T"
  proof (intro map_cong refl)
    fix t assume "t \<in> set ?T"
    from pos2 [OF this] have "2 * t + smooth \<noteq> 0"
      by simp
    then show "fdivide (Finite (2 * t + smooth)) (Finite (t + t + smooth)) = Finite 1"
      by simp
  qed
  finally have dice: "map2 (\<lambda>i u. fdivide (Finite (2 * i + smooth)) (Finite (u + smooth))) ?T
                        (map2 (+) ?T ?T) = map (\<lambda>t. Finite 1) ?T" .
  show "dice_coef y y smooth = Finite 1"
    unfolding dice_coef_def Let_def inter dice by (rule mean1)
qed

lemma map2_replicate_left: "length xs = n \<Longrightarrow> map2 f (replicate n c) xs = map (f c) xs"
  by (induction xs arbitrary: n) auto

lemma map2_replicate_right:
  "length xs = n \<Longrightarrow> map2 f xs (replicate n c) = map (\<lambda>x. f x c) xs"
  by (induction xs arbitrary: n) auto

lemma sum_list_pos_real:
  "xs \<noteq> [] \<Longrightarrow> \<forall>x \<in> set xs. 0 < (x::real) \<Longrightarrow> 0 < sum_list xs"
proof (induction xs)
  case Nil
  then show ?case by simp
next
  case (Cons x xs)
  then show ?case by (cases xs) (auto intro: add_pos_pos)
qed

lemma length_sum_axes123 [simp]: "length (sum_axes123 t) = length t"
  by (simp add: sum_axes123_def)

lemma length_times4 [simp]: "length (times4 a b) = min (length a) (length b)"
  by (simp add: times4_def)

lemma coefficients_disjoint:
  assumes "y_true \<noteq> []" and "length y_pred = length y_true"
    and "\<forall>i \<in> set (sum_axes123 (times4 y_true y_pred)). i = 0"
    and "\<forall>u \<in> set (map2 (+) (sum_axes123 y_true) (sum_axes123 y_pred)). 0 < u + smooth"
  shows "iou_coef y_true y_pred smooth =
           Finite (sum_list (map (\<lambda>u. smooth / (u + smooth))
                     (map2 (+) (sum_axes123 y_true) (sum_axes123 y_pred))) / real (length y_true))"
    and "dice_coef y_true y_pred smooth =
           Finite (sum_list (map (\<lambda>u. smooth / (u + smooth))
                     (map2 (+) (sum_axes123 y_true) (sum_axes123 y_pred))) / real (length y_true))"
proof -
  let ?n = "length y_true"
  let ?I = "sum_axes123 (times4 y_true y_pred)"
  let ?U = "map2 (+) (sum_axes123 y_true) (sum_axes123 y_pred)"
  let ?R = "map (\<lambda>u. smooth / (u + smooth)) ?U"
  have lenI: "length ?I = ?n" and lenU: "length ?U = ?n"
    using assms(2) by simp_all
  have "replicate (length ?I) 0 = ?I"
    using assms(3) by (intro replicate_length_same) simp
  then have I: "?I = replicate ?n 0"
    using lenI by simp
  have "length ?R = length ?U"
    by (rule length_map)
  then have lenR: "length ?R = ?n"
    by (simp only: lenU)
  have ne: "?R \<noteq> []"
    using lenR assms(1) by (metis length_0_conv)
  have ratio: "map (\<lambda>u. fdivide (Finite smooth) (Finite (u + smooth))) ?U = map Finite ?R"
    using assms(4) by (auto intro!: map_cong)
  have mean: "mean_axis0 (map Finite ?R) = Finite (sum_list ?R / real ?n)"
    using mean_axis0_Finite [OF ne] lenR by simp
  have union: "map2 (-) ?U (replicate ?n 0) = ?U"
    using lenU by (simp add: map2_replicate_right)
  have "map2 (\<lambda>i u. fdivide (Finite (i + smooth)) (Finite (u + smooth))) (replicate ?n 0) ?U =
          map (\<lambda>u. fdivide (Finite smooth) (Finite (u + smooth))) ?U"
    using lenU by (simp add: map2_replicate_left)
  then have a: "map2 (\<lambda>i u. fdivide (Finite (i + smooth)) (Finite (u + smooth)))
                  (replicate ?n 0) ?U = map Finite ?R"
    using ratio by simp
  show "iou_coef y_true y_pred smooth = Finite (sum_list ?R / real ?n)"
    unfolding iou_coef_def Let_def I union a by (rule mean)
  have "map2 (\<lambda>i u. fdivide (Finite (2 * i + smooth)) (Finite (u + smooth))) (replicate ?n 0) ?U =
          map (\<lambda>u. fdivide (Finite smooth) (Finite (u + smooth))) ?U"
    using lenU by (simp add: map2_replicate_left)
  then have b: "map2 (\<lambda>i u. fdivide (Finite (2 * i + smooth)) (Finite (u + smooth)))
                  (replicate ?n 0) ?U = map Finite ?R"
    using ratio by simp
  show "dice_coef y_true y_pred smooth = Finite (sum_list ?R / real ?n)"
    unfolding dice_coef_def Let_def I b by (rule mean)
qed

lemma disjoint_value_zero_iff:
  assumes "us \<noteq> []" and "0 \<le> smooth" and "\<forall>u \<in> set us. 0 < u + smooth"
  shows "sum_list (map (\<lambda>u. smooth / (u + smooth)) us) / real (length us) = 0 \<longleftrightarrow> smooth = 0"
proof (cases "smooth = 0")
  case True
  then show ?thesis by simp
next
  case False
  then have s: "0 < smooth" using assms(2) by simp
  have "0 < sum_list (map (\<lambda>u. smooth / (u + smooth)) us)"
    using assms(1,3) s by (intro sum_list_pos_real) auto
  then show ?thesis using False assms(1) by simp
qed

text \<open>
  Claim C7, as the code has it. Let smooth be at least 0. For a batch of at least one
  sample of label planes with entries 0 and 1, compared with itself, \<open>iou_coef\<close> and
  \<open>dice_coef\<close> are both 1, provided smooth is positive or every sample has a true entry.
  For two batches of the same length whose intersection is 0 in every sample, both
  coefficients are the mean over the samples of smooth / (sum(y_true) + sum(y_pred) +
  smooth), provided these denominators are positive; that value is 0 exactly when smooth
  is 0.
\<close>

theorem coefficients_identical_or_disjoint:
  assumes "0 \<le> smooth"
  shows "(y \<noteq> [] \<longrightarrow> (\<forall>v \<in> set (entries4 y). v = 0 \<or> v = 1) \<longrightarrow>
          (0 < smooth \<or> (\<forall>t \<in> set (sum_axes123 y). 0 < t)) \<longrightarrow>
          iou_coef y y smooth = Finite 1 \<and> dice_coef y y smooth = Finite 1) \<and>
         (y_true \<noteq> [] \<longrightarrow> length y_pred = length y_true \<longrightarrow>
          (\<forall>i \<in> set (sum_axes123 (times4 y_true y_pred)). i = 0) \<longrightarrow>
          (\<forall>u \<in> set (map2 (+) (sum_axes123 y_true) (sum_axes123 y_pred)). 0 < u + smooth) \<longrightarrow>
          (\<exists>r. iou_coef y_true y_pred smooth = Finite r \<and>
               dice_coef y_true y_pred smooth = Finite r \<and>
               r = sum_list (map (\<lambda>u. smooth / (u + smooth))
                     (map2 (+) (sum_axes123 y_true) (sum_axes123 y_pred))) /
                   real (length y_true) \<and>
               (r = 0 \<longleftrightarrow> smooth = 0)))"
proof (intro conjI impI)
  assume "y \<noteq> []" and "\<forall>v \<in> set (entries4 y). v = 0 \<or> v = 1"
    and "0 < smooth \<or> (\<forall>t \<in> set (sum_axes123 y). 0 < t)"
  from coefficients_identical(1) [OF this(1,2) assms this(3)]
  show "iou_coef y y smooth = Finite 1" .
next
  assume "y \<noteq> []" and "\<forall>v \<in> set (entries4 y). v = 0 \<or> v = 1"
    and "0 < smooth \<or> (\<forall>t \<in> set (sum_axes123 y). 0 < t)"
  from coefficients_identical(2) [OF this(1,2) assms this(3)]
  show "dice_coef y y smooth = Finite 1" .
next
  let ?U = "map2 (+) (sum_axes123 y_true) (sum_axes123 y_pred)"
  assume ne: "y_true \<noteq> []" and len: "length y_pred = length y_true"
    and zero: "\<forall>i \<in> set (sum_axes123 (times4 y_true y_pred)). i = 0"
    and pos: "\<forall>u \<in> set ?U. 0 < u + smooth"
  have lenU: "length ?U = length y_true" using len by simp
  then have "?U \<noteq> []" using ne by (metis length_0_conv)
  from disjoint_value_zero_iff [OF this assms pos]
  have "sum_list (map (\<lambda>u. smooth / (u + smooth)) ?U) / real (length y_true) = 0
          \<longleftrightarrow> smooth = 0"
    by (simp only: lenU)
  then show "\<exists>r. iou_coef y_true y_pred smooth = Finite r \<and>
               dice_coef y_true y_pred smooth = Finite r \<and>
               r = sum_list (map (\<lambda>u. smooth / (u + smooth)) ?U) / real (length y_true) \<and>
               (r = 0 \<longleftrightarrow> smooth = 0)"
    using coefficients_disjoint [OF ne len zero pos] by blast
qed

theorem coefficients_identical_or_disjoint_witness:
  "iou_coef demo_planes demo_planes 1 = Finite 1 \<and>
   dice_coef demo_planes demo_planes 1 = Finite 1 \<and>
   (\<exists>r. iou_coef demo_planes demo_shifted 1 = Finite r \<and>
        dice_coef demo_planes demo_shifted 1 = Finite r \<and> r = 1 / 5)"
proof -
  have 0: "(0::real) \<le> 1" by simp
  have 1: "demo_planes \<noteq> []" by (simp add: demo_planes_def)
  have 2: "\<forall>v \<in> set (entries4 demo_planes). v = 0 \<or> v = 1"
    by (simp add: demo_planes_def entries4_def)
  have 3: "0 < (1::real) \<or> (\<forall>t \<in> set (sum_axes123 demo_planes). 0 < t)" by simp
  have 4: "length demo_shifted = length demo_planes"
    by (simp add: demo_planes_def demo_shifted_def)
  have 5: "\<forall>i \<in> set (sum_axes123 (times4 demo_planes demo_shifted)). i = 0"
    by (simp add: demo_planes_def demo_shifted_def sum_axes123_def times4_def)
  have 6: "\<forall>u \<in> set (map2 (+) (sum_axes123 demo_planes) (sum_axes123 demo_shifted)). 0 < u + 1"
    by (simp add: demo_planes_def demo_shifted_def sum_axes123_def)
  note inst = coefficients_identical_or_disjoint [OF 0, of demo_planes demo_planes demo_shifted]
  have a: "iou_coef demo_planes demo_planes 1 = Finite 1 \<and>
           dice_coef demo_planes demo_planes 1 = Finite 1"
    using inst 1 2 3 by blast
  obtain r where r: "iou_coef demo_planes demo_shifted 1 = Finite r"
      "dice_coef demo_planes demo_shifted 1 = Finite r"
      "r = sum_list (map (\<lambda>u. 1 / (u + 1))
                     (map2 (+) (sum_axes123 demo_planes) (sum_axes123 demo_shifted))) /
           real (length demo_planes)"
    using inst 1 4 5 6 by blast
  have "r = 1 / 5"
    unfolding r(3) by (simp add: demo_planes_def demo_shifted_def sum_axes123_def)
  then show ?thesis using a r(1,2) by blast
qed

text \<open>
  Claim C7 as stated fails at both ends. With smooth = 0, a sample without any true
  entry compared with itself gives 0/0, which is NaN and not 1. With the default
  smooth = 1, two planes that do not overlap at all, each with two true entries, give
  1/5 for both coefficients: the value at vanishing overlap is smooth / (sums + smooth),
  not 0.
\<close>

theorem coefficients_counterexample:
  "iou_coef blank_planes blank_planes 0 = NaN \<and>
   dice_coef blank_planes blank_planes 0 = NaN \<and>
   iou_coef demo_planes demo_shifted 1 = Finite (1 / 5) \<and>
   dice_coef demo_planes demo_shifted 1 = Finite (1 / 5)"
  by (simp add: iou_coef_def dice_coef_def blank_planes_def demo_planes_def demo_shifted_def
        sum_axes123_def times4_def mean_axis0_def)

subsection \<open>Intensity scaling\<close>

lemma set_voxels: "set (voxels img) = set_volume img"
  by (cases img) auto

lemma foldl_max_zero: "\<forall>x \<in> set vs. x = (0::real) \<Longrightarrow> foldl max 0 vs = 0"
  by (induction vs) simp_all

text \<open>
  Claim C2, as the code has it. The intensity scaling of \<open>predict_volume\<close> has no guard
  for a maximum of 0. On a volume with at least one voxel it raises nothing, no division
  fault either; but for an all-zero volume the factor 255 / 0 is an infinity, and the
  scaled volume is NaN at every voxel.
\<close>

theorem scale_intensity_all_zero:
  assumes "voxels img \<noteq> []"
  shows "(\<exists>out. scale_intensity img = Inr out) \<and>
         ((\<forall>x \<in> set (voxels img). x = 0) \<longrightarrow>
          scale_intensity img = Inr (map_volume (\<lambda>_. NaN) img))"
proof -
  obtain v vs where vox: "voxels img = v # vs"
    using assms by (cases "voxels img") auto
  have run: "scale_intensity img =
               Inr (map_volume
                 (\<lambda>x. ftimes (Finite x) (fdivide (Finite 255) (Finite (foldl max v vs)))) img)"
    by (simp add: scale_intensity_def vox)
  have "scale_intensity img = Inr (map_volume (\<lambda>_. NaN) img)"
    if zero: "\<forall>x \<in> set (voxels img). x = 0"
  proof -
    have "v = 0" "\<forall>x \<in> set vs. x = 0" using zero vox by simp_all
    then have m: "foldl max v vs = 0" by (simp add: foldl_max_zero)
    have "map_volume (\<lambda>x. ftimes (Finite x) (fdivide (Finite 255) (Finite (foldl max v vs)))) img
            = map_volume (\<lambda>_. NaN) img"
    proof (rule volume.map_cong [OF refl])
      fix x assume "x \<in> set_volume img"
      then have "x = 0" using zero by (simp add: set_voxels)
      then show "ftimes (Finite x) (fdivide (Finite 255) (Finite (foldl max v vs))) = NaN"
        by (simp add: m signed_inf_def)
    qed
    then show ?thesis using run by simp
  qed
  then show ?thesis using run by blast
qed

theorem scale_intensity_all_zero_witness:
  "voxels (Volume4 [[[[0, 0, 0]], [[0, 0, 0::real]]]]) \<noteq> [] \<and>
   scale_intensity (Volume4 [[[[0, 0, 0]], [[0, 0, 0]]]]) =
     Inr (Volume4 [[[[NaN, NaN, NaN]], [[NaN, NaN, NaN]]]])"
proof -
  have 1: "voxels (Volume4 [[[[0, 0, 0]], [[0, 0, 0::real]]]]) \<noteq> []" by simp
  have 2: "\<forall>x \<in> set (voxels (Volume4 [[[[0, 0, 0]], [[0, 0, 0::real]]]])). x = 0" by simp
  show ?thesis
    using 1 2 scale_intensity_all_zero [OF 1] by simp
qed

text \<open>
  Claim C2 as stated fails: an all-zero volume is not left as it is by a guard, every
  voxel of the scaled volume is NaN.
\<close>

theorem scale_intensity_counterexample:
  "scale_intensity (Volume3 [[[0, 0], [0, 0]]]) = Inr (Volume3 [[[NaN, NaN], [NaN, NaN]]])"
  by (simp add: scale_intensity_def signed_inf_def)

subsection \<open>Resampler shapes\<close>





end
